theory Spec2Isabelle
  imports Main "HOL-Library.Word"
begin

section \<open>JavaScript values\<close>

text \<open>
  The validators take \<open>data: unknown\<close>. The value universe of the model: the primitives,
  the two native bson classes the validators test for with \<open>instanceof\<close>, and ordinary
  objects. An ordinary object is its own data properties (\<open>fields\<close>) together with
  the name of the constructor its prototype chain gives it (\<open>cname\<close>). An object
  whose \<open>cname\<close> is \<open>None\<close> is a prototype-less object
  (\<open>Object.create(null)\<close>): it is not an \<open>instanceof Object\<close> and inherits no
  \<open>constructor\<close>. An own property named \<open>constructor\<close> shadows the inherited one.
  Numbers are integers or NaN. Functions, symbols, arrays and the other built-in exotic
  objects, accessor properties, proxies, and inherited properties other than
  \<open>constructor\<close> are outside the universe.
\<close>

datatype jsval =
    JUndefined
  | JNull
  | JBool bool
  | JNum int
  | JNaN
  | JStr string
  | JObjectId "96 word"
  | JDBRef (collection: string) (oid: jsval) (db: jsval)
  | JObject (cname: "string option") (fields: "(string \<times> jsval) list")

text \<open>Thrown values: the message is what \<open>(e as Error).message\<close> reads.\<close>

datatype exn = TypeError string | JsError string | BSONError string

fun exn_message :: "exn \<Rightarrow> string option" where
  "exn_message (TypeError m) = Some m"
| "exn_message (JsError m) = Some m"
| "exn_message (BSONError m) = Some m"

fun js_typeof :: "jsval \<Rightarrow> string" where
  "js_typeof JUndefined = ''undefined''"
| "js_typeof JNull = ''object''"
| "js_typeof (JBool b) = ''boolean''"
| "js_typeof (JNum n) = ''number''"
| "js_typeof JNaN = ''number''"
| "js_typeof (JStr s) = ''string''"
| "js_typeof (JObjectId w) = ''object''"
| "js_typeof (JDBRef c i d) = ''object''"
| "js_typeof (JObject c fs) = ''object''"

text \<open>The falsy values are undefined, null, false, 0, NaN and the empty string.\<close>

fun truthy :: "jsval \<Rightarrow> bool" where
  "truthy JUndefined = False"
| "truthy JNull = False"
| "truthy (JBool b) = b"
| "truthy (JNum n) = (n \<noteq> 0)"
| "truthy JNaN = False"
| "truthy (JStr s) = (s \<noteq> [])"
| "truthy (JObjectId w) = True"
| "truthy (JDBRef c i d) = True"
| "truthy (JObject c fs) = True"

fun instanceof_Object :: "jsval \<Rightarrow> bool" where
  "instanceof_Object (JObjectId w) = True"
| "instanceof_Object (JDBRef c i d) = True"
| "instanceof_Object (JObject c fs) = (c \<noteq> None)"
| "instanceof_Object v = False"

fun instanceof_ObjectId :: "jsval \<Rightarrow> bool" where
  "instanceof_ObjectId (JObjectId w) = True"
| "instanceof_ObjectId v = False"

fun instanceof_DBRef :: "jsval \<Rightarrow> bool" where
  "instanceof_DBRef (JDBRef c i d) = True"
| "instanceof_DBRef v = False"

text \<open>
  Property read \<open>v.k\<close>, for the property names read on data values (\<open>$oid\<close>,
  \<open>$ref\<close>, \<open>$id\<close>, \<open>$db\<close>, and \<open>name\<close> on the value of an own
  \<open>constructor\<close> property): none of them is defined on a built-in prototype or on
  the native classes, so only an own property of an object gives a value other than
  undefined. Reading a property of null or undefined throws a TypeError.
\<close>

fun get_prop :: "jsval \<Rightarrow> string \<Rightarrow> exn + jsval" where
  "get_prop JUndefined k =
     Inl (TypeError (''Cannot read properties of undefined (reading '' @ k @ '')''))"
| "get_prop JNull k =
     Inl (TypeError (''Cannot read properties of null (reading '' @ k @ '')''))"
| "get_prop (JObject c fs) k = Inr (case map_of fs k of Some v \<Rightarrow> v | None \<Rightarrow> JUndefined)"
| "get_prop v k = Inr JUndefined"

text \<open>
  What \<open>data.constructor.name\<close> reads. On an ordinary object an own property named
  \<open>constructor\<close> is read first, and \<open>name\<close> is then read on its value, whatever
  that is; otherwise the constructor is the inherited one, and a prototype-less object has
  none, so that reading \<open>name\<close> throws. The result need not be a string.
\<close>

fun constructor_name :: "jsval \<Rightarrow> exn + jsval" where
  "constructor_name JUndefined =
     Inl (TypeError ''Cannot read properties of undefined (reading constructor)'')"
| "constructor_name JNull =
     Inl (TypeError ''Cannot read properties of null (reading constructor)'')"
| "constructor_name (JBool b) = Inr (JStr ''Boolean'')"
| "constructor_name (JNum n) = Inr (JStr ''Number'')"
| "constructor_name JNaN = Inr (JStr ''Number'')"
| "constructor_name (JStr s) = Inr (JStr ''String'')"
| "constructor_name (JObjectId w) = Inr (JStr ''ObjectId'')"
| "constructor_name (JDBRef c i d) = Inr (JStr ''DBRef'')"
| "constructor_name (JObject c fs) =
     (case map_of fs ''constructor'' of
        Some v \<Rightarrow> get_prop v ''name''
      | None \<Rightarrow>
          (case c of
             Some n \<Rightarrow> Inr (JStr n)
           | None \<Rightarrow> Inl (TypeError ''Cannot read properties of undefined (reading name)'')))"

subsection \<open>getUnkownType (JamfUtilities.ts)\<close>

definition getUnkownType :: "jsval \<Rightarrow> exn + jsval" where
  "getUnkownType data =
     (if js_typeof data = ''object''
      then (if truthy data then constructor_name data else Inr (JStr ''null''))
      else Inr (JStr (js_typeof data)))"

section \<open>The bson library at its boundary\<close>

text \<open>
  The library is not part of the repository; its constructors are modelled as bson 6
  documents them. A native identifier (\<open>bson.ObjectId\<close>) is twelve bytes, read here as
  one 96-bit word; its canonical hex form is the 24 lower-case hex digits of that word.
\<close>

definition hexval :: "char \<Rightarrow> nat option" where
  "hexval c =
     (let n = (of_char c :: nat) in
      if 48 \<le> n \<and> n \<le> 57 then Some (n - 48)
      else if 97 \<le> n \<and> n \<le> 102 then Some (n - 87)
      else if 65 \<le> n \<and> n \<le> 70 then Some (n - 55)
      else None)"

definition hexchar :: "nat \<Rightarrow> char" where
  "hexchar d = (if d < 10 then char_of (48 + d) else char_of (87 + d))"

definition toLowerHex :: "char \<Rightarrow> char" where
  "toLowerHex c =
     (let n = (of_char c :: nat) in if 65 \<le> n \<and> n \<le> 70 then char_of (n + 32) else c)"

text \<open>The test \<open>/^[0-9a-fA-F]{24}$/\<close> together with \<open>length === 24\<close>.\<close>

definition checkForHex :: "string \<Rightarrow> bool" where
  "checkForHex s = (length s = 24 \<and> list_all (\<lambda>c. hexval c \<noteq> None) s)"

definition parseHex :: "string \<Rightarrow> nat" where
  "parseHex s = foldl (\<lambda>a c. 16 * a + the (hexval c)) 0 s"

primrec toHex :: "nat \<Rightarrow> nat \<Rightarrow> string" where
  "toHex 0 n = []"
| "toHex (Suc k) n = toHex k (n div 16) @ [hexchar (n mod 16)]"

definition fromHex :: "string \<Rightarrow> 96 word" where
  "fromHex s = of_nat (parseHex s)"

definition toHexString :: "96 word \<Rightarrow> string" where
  "toHexString w = toHex 24 (unat w)"

text \<open>\<open>String.prototype.split\<close> on a one-character separator.\<close>

fun split_str :: "char \<Rightarrow> string \<Rightarrow> string list" where
  "split_str sep [] = [[]]"
| "split_str sep (c # cs) =
     (if c = sep then [] # split_str sep cs
      else (case split_str sep cs of p # ps \<Rightarrow> (c # p) # ps | [] \<Rightarrow> [[c]]))"


section \<open>The zod framework at its boundary\<close>

text \<open>
  The framework is not part of the repository either. What the validators use of zod 3 is
  modelled: issues and error maps, the parse context, the low-level results, and the base
  class methods \<open>_parseSync\<close>, \<open>_parseAsync\<close> and \<open>_processInputParams\<close>.
\<close>

datatype seg = Key string | Index nat

type_synonym path = "seg list"

datatype ZodIssueCode = invalid_type | custom

record IssueData =
  code :: ZodIssueCode
  expected :: "string option"
  received :: "jsval option"
  message :: "string option"

record ZodIssue =
  issue_code :: ZodIssueCode
  issue_path :: path
  issue_message :: string
  issue_expected :: "string option"
  issue_received :: "jsval option"

text \<open>
  An error map reads the issue (its data and full path), the validated data and the
  default message, and gives a message. Error maps are the caller's, the schema's and the
  ones zod has installed globally; each is taken to be a function that returns, and what
  zod's own map writes is not fixed by the model.
\<close>

type_synonym ZodErrorMap = "IssueData \<Rightarrow> path \<Rightarrow> jsval \<Rightarrow> string \<Rightarrow> string"

definition makeIssue :: "IssueData \<Rightarrow> jsval \<Rightarrow> path \<Rightarrow> ZodErrorMap list \<Rightarrow> ZodIssue" where
  "makeIssue issueData d p errorMaps =
     (let fullPath = p;
          errorMessage = foldl (\<lambda>acc m. m issueData fullPath d acc) [] (rev errorMaps)
      in \<lparr>issue_code = code issueData, issue_path = fullPath,
          issue_message = (case message issueData of Some m \<Rightarrow> m | None \<Rightarrow> errorMessage),
          issue_expected = expected issueData, issue_received = received issueData\<rparr>)"

datatype ZodParsedType =
    PT_string | PT_nan | PT_number | PT_boolean | PT_undefined | PT_null | PT_object

fun getParsedType :: "jsval \<Rightarrow> ZodParsedType" where
  "getParsedType JUndefined = PT_undefined"
| "getParsedType JNull = PT_null"
| "getParsedType (JBool b) = PT_boolean"
| "getParsedType (JNum n) = PT_number"
| "getParsedType JNaN = PT_nan"
| "getParsedType (JStr s) = PT_string"
| "getParsedType (JObjectId w) = PT_object"
| "getParsedType (JDBRef c i d) = PT_object"
| "getParsedType (JObject c fs) = PT_object"

subsection \<open>Parse context (JamfType.ts)\<close>

text \<open>
  The \<open>common\<close> object of a context is shared by reference between a context and every
  context derived from it, and its issue array is appended to in place. It therefore lives
  in a store, and a context holds its address.
\<close>

type_synonym addr = nat

record common =
  issues :: "ZodIssue list"
  async :: bool
  parseToBSON :: "bool option"
  contextualErrorMap :: "ZodErrorMap option"

datatype ParseContext =
  ParseContext (common: addr) (ctx_path: path) (schemaErrorMap: "ZodErrorMap option")
    (ctx_parent: "ParseContext option") (ctx_data: jsval) (parsedType: ZodParsedType)

record ParseInput =
  data :: jsval
  path :: path
  parent :: ParseContext

record JamfParseParams =
  params_path :: "path option"
  params_errorMap :: "ZodErrorMap option"
  params_async :: "bool option"
  params_parseToBSON :: "bool option"

subsection \<open>The world a parse runs in\<close>

text \<open>
  Besides the store of \<open>common\<close> objects and its allocation counter, the world holds the
  state of the bson library's identifier generator (its counter, its per-process random
  bytes, the clock), the error maps zod applies after the caller's and the schema's (the
  map \<open>getErrorMap()\<close> returns and, when that is not zod's default map, the default map
  after it), and a record of the calls made into the two libraries, in order.
\<close>

datatype lib_call =
    Call_parseSync ParseInput
  | Call_parseAsync ParseInput
  | Call_new_ObjectId jsval
  | Call_new_DBRef jsval jsval jsval

record world =
  heap :: "addr \<Rightarrow> common"
  next_addr :: addr
  oid_index :: nat
  process_unique :: "40 word"
  now :: int
  global_error_maps :: "ZodErrorMap list"
  calls :: "lib_call list"

type_synonym 'a eff = "world \<Rightarrow> (exn + 'a) \<times> world"

definition record_call :: "lib_call \<Rightarrow> world \<Rightarrow> world" where
  "record_call c w = w\<lparr>calls := calls w @ [c]\<rparr>"

subsection \<open>bson constructors\<close>

text \<open>\<open>ObjectId.generate(time)\<close>: four bytes of time, five per-process bytes, three bytes
  of a counter that is advanced first.\<close>

definition generate :: "int \<Rightarrow> world \<Rightarrow> 96 word \<times> world" where
  "generate t w =
     (let inc = (oid_index w + 1) mod 16777215
      in (of_nat (nat (t mod 2 ^ 32)) * 2 ^ 64 + ucast (process_unique w) * 2 ^ 24 + of_nat inc,
          w\<lparr>oid_index := inc\<rparr>))"

definition hex_error :: exn where
  "hex_error =
     BSONError ''input must be a 24 character hex string, 12 byte Uint8Array, or an integer''"

definition ObjectId_of_string :: "string \<Rightarrow> exn + 96 word" where
  "ObjectId_of_string s = (if checkForHex s then Inr (fromHex s) else Inl hex_error)"

text \<open>\<open>new bson.ObjectId(inputId)\<close>.\<close>

definition ObjectId_new :: "jsval \<Rightarrow> (96 word) eff" where
  "ObjectId_new inputId w0 =
     (let w = record_call (Call_new_ObjectId inputId) w0 in
      case inputId of
        JUndefined \<Rightarrow> (case generate (now w) w of (x, w') \<Rightarrow> (Inr x, w'))
      | JNull \<Rightarrow> (case generate (now w) w of (x, w') \<Rightarrow> (Inr x, w'))
      | JNum n \<Rightarrow> (case generate n w of (x, w') \<Rightarrow> (Inr x, w'))
      | JNaN \<Rightarrow> (case generate 0 w of (x, w') \<Rightarrow> (Inr x, w'))
      | JStr s \<Rightarrow> (ObjectId_of_string s, w)
      | JObjectId x \<Rightarrow> (Inr x, w)
      | JObject c fs \<Rightarrow>
          (case map_of fs ''id'' of
             Some (JStr s) \<Rightarrow> (ObjectId_of_string s, w)
           | Some v \<Rightarrow>
               (Inl (BSONError
                  ''Argument passed in must have an id that is of type string or Buffer''), w)
           | None \<Rightarrow>
               (Inl (BSONError ''Argument passed in does not match the accepted types''), w))
      | _ \<Rightarrow> (Inl (BSONError ''Argument passed in does not match the accepted types''), w))"

text \<open>\<open>new bson.DBRef(collection, oid, db)\<close>: a collection name of the form \<open>db.coll\<close> is
  taken apart; a collection that is not a string has no \<open>split\<close> method.\<close>

definition DBRef_construct :: "jsval \<Rightarrow> jsval \<Rightarrow> jsval \<Rightarrow> exn + jsval" where
  "DBRef_construct coll i d =
     (case coll of
        JStr s \<Rightarrow>
          (case split_str CHR ''.'' s of
             [a, b] \<Rightarrow> Inr (JDBRef b i (JStr a))
           | _ \<Rightarrow> Inr (JDBRef s i d))
      | _ \<Rightarrow> Inl (TypeError ''collection.split is not a function''))"

definition DBRef_new :: "jsval \<Rightarrow> jsval \<Rightarrow> jsval \<Rightarrow> jsval eff" where
  "DBRef_new coll i d w = (DBRef_construct coll i d, record_call (Call_new_DBRef coll i d) w)"

subsection \<open>Issues, results, deferred values\<close>

text \<open>\<open>z.addIssueToContext(ctx, issueData)\<close>: the issue is made at the context's path and
  pushed onto the issue array of the context's \<open>common\<close> object.\<close>

definition addIssueToContext :: "ParseContext \<Rightarrow> IssueData \<Rightarrow> world \<Rightarrow> world" where
  "addIssueToContext ctx issueData w =
     (let c = heap w (common ctx);
          issue = makeIssue issueData (ctx_data ctx) (ctx_path ctx)
                    (List.map_filter (\<lambda>m. m) [contextualErrorMap c, schemaErrorMap ctx]
                       @ global_error_maps w)
      in w\<lparr>heap := (heap w)(common ctx := c\<lparr>issues := issues c @ [issue]\<rparr>)\<rparr>)"

datatype SyncParseReturnType = OK jsval | DIRTY jsval | INVALID

datatype 'a promise = Promise (settle: "'a eff")

datatype ParseReturnType = Sync SyncParseReturnType | Async "SyncParseReturnType promise"

fun isValid :: "SyncParseReturnType \<Rightarrow> bool" where
  "isValid (OK v) = True"
| "isValid r = False"

text \<open>\<open>Promise.resolve(x)\<close> gives \<open>x\<close> itself when \<open>x\<close> is a promise.\<close>

fun Promise_resolve :: "ParseReturnType \<Rightarrow> SyncParseReturnType promise" where
  "Promise_resolve (Sync r) = Promise (\<lambda>w. (Inr r, w))"
| "Promise_resolve (Async p) = p"

text \<open>\<open>p.then(f)\<close>: \<open>f\<close> runs when \<open>p\<close> has been fulfilled; what \<open>f\<close> throws rejects
  the new promise, and a promise that \<open>f\<close> returns is followed.\<close>

definition then_promise ::
  "SyncParseReturnType promise \<Rightarrow> (SyncParseReturnType \<Rightarrow> ParseReturnType eff)
     \<Rightarrow> SyncParseReturnType promise" where
  "then_promise p f =
     Promise (\<lambda>w. case settle p w of
                (Inl e, w1) \<Rightarrow> (Inl e, w1)
              | (Inr r, w1) \<Rightarrow>
                  (case f r w1 of
                     (Inl e, w2) \<Rightarrow> (Inl e, w2)
                   | (Inr (Sync r'), w2) \<Rightarrow> (Inr r', w2)
                   | (Inr (Async q), w2) \<Rightarrow> settle q w2))"

subsection \<open>Methods of the schema base class\<close>

definition sync_error :: exn where
  "sync_error = JsError ''Synchronous parse encountered promise.''"

text \<open>A schema is seen through its \<open>_parse\<close> method.\<close>

definition parseSync :: "(ParseInput \<Rightarrow> ParseReturnType eff) \<Rightarrow> ParseInput \<Rightarrow> SyncParseReturnType eff"
  where
  "parseSync schema_parse input w0 =
     (case schema_parse input (record_call (Call_parseSync input) w0) of
        (Inl e, w) \<Rightarrow> (Inl e, w)
      | (Inr (Sync r), w) \<Rightarrow> (Inr r, w)
      | (Inr (Async p), w) \<Rightarrow> (Inl sync_error, w))"

definition parseAsync ::
  "(ParseInput \<Rightarrow> ParseReturnType eff) \<Rightarrow> ParseInput \<Rightarrow> (SyncParseReturnType promise) eff"
  where
  "parseAsync schema_parse input w0 =
     (case schema_parse input (record_call (Call_parseAsync input) w0) of
        (Inl e, w) \<Rightarrow> (Inl e, w)
      | (Inr r, w) \<Rightarrow> (Inr (Promise_resolve r), w))"

datatype ParseStatus = status_valid | status_dirty | status_aborted

definition processInputParams ::
  "ZodErrorMap option \<Rightarrow> ParseInput \<Rightarrow> ParseStatus \<times> ParseContext" where
  "processInputParams def_errorMap input =
     (status_valid,
      ParseContext (common (parent input)) (path input) def_errorMap (Some (parent input))
        (data input) (getParsedType (data input)))"


section \<open>Nested composition helper (JamfUtilities.ts)\<close>

text \<open>The \<open>path\<close> argument is one segment or an array of segments;
  \<open>Array.prototype.concat\<close> appends either.\<close>

datatype path_arg = One seg | Many "seg list"

fun concat_path :: "path \<Rightarrow> path_arg \<Rightarrow> path" where
  "concat_path p (One s) = p @ [s]"
| "concat_path p (Many ss) = p @ ss"

definition nested_input :: "path_arg \<Rightarrow> ParseInput \<Rightarrow> jsval \<Rightarrow> ParseInput" where
  "nested_input p input d =
     \<lparr>data = d, path = concat_path (path input) p, parent = parent input\<rparr>"

definition handleNestedParsing ::
  "(ParseInput \<Rightarrow> ParseReturnType eff) \<Rightarrow> path_arg \<Rightarrow> ParseInput \<Rightarrow> jsval
     \<Rightarrow> (SyncParseReturnType \<Rightarrow> ParseReturnType eff) \<Rightarrow> ParseReturnType eff" where
  "handleNestedParsing schema p input d logic w =
     (let inputParams = nested_input p input d in
      if async (heap w (common (parent input)))
      then (case parseAsync schema inputParams w of
              (Inl e, w') \<Rightarrow> (Inl e, w')
            | (Inr pr, w') \<Rightarrow> (Inr (Async (then_promise pr logic)), w'))
      else (case parseSync schema inputParams w of
              (Inl e, w') \<Rightarrow> (Inl e, w')
            | (Inr r, w') \<Rightarrow> logic r w'))"

section \<open>Identifier validator (JamfUtilities.ts)\<close>

datatype JamfFirstPartyTypeKind = ObjectID

record ZodTypeDef =
  errorMap :: "ZodErrorMap option"
  description :: "string option"

record JamfObjectIdDef = ZodTypeDef +
  typeName :: JamfFirstPartyTypeKind

text \<open>\<open>JamfDBRefDef\<close> is declared with the same members as \<open>JamfObjectIdDef\<close>.\<close>

type_synonym JamfDBRefDef = JamfObjectIdDef

datatype JamfObjectId = JamfObjectId (objectid_def: JamfObjectIdDef)

definition caught_message :: "exn \<Rightarrow> string" where
  "caught_message e = (case exn_message e of Some m \<Rightarrow> m | None \<Rightarrow> ''unknown error'')"

definition ctx_parseToBSON :: "ParseContext \<Rightarrow> world \<Rightarrow> bool" where
  "ctx_parseToBSON ctx w = (parseToBSON (heap w (common ctx)) = Some True)"

text \<open>The candidate \<open>val\<close> of the second branch: the data itself when it is a string, its
  \<open>$oid\<close> when it is an object with a truthy one, and otherwise none.\<close>

definition candidate :: "jsval \<Rightarrow> exn + jsval option" where
  "candidate d =
     (if js_typeof d = ''string'' then Inr (Some d)
      else if instanceof_Object d
      then (case get_prop d ''$oid'' of
              Inl e \<Rightarrow> Inl e
            | Inr v \<Rightarrow> Inr (if truthy v then Some v else None))
      else Inr None)"

definition JamfObjectId_parse :: "JamfObjectId \<Rightarrow> ParseInput \<Rightarrow> ParseReturnType eff" where
  "JamfObjectId_parse this input w =
     (case processInputParams (errorMap (objectid_def this)) input of (status, ctx) \<Rightarrow>
      (case data input of
         JObjectId x \<Rightarrow>
           (if ctx_parseToBSON ctx w then (Inr (Sync (OK (data input))), w)
            else (case ObjectId_new (JStr (toHexString x)) w of
                    (Inl e, w') \<Rightarrow> (Inl e, w')
                  | (Inr y, w') \<Rightarrow> (Inr (Sync (OK (JObjectId y))), w')))
       | _ \<Rightarrow>
           (case candidate (data input) of
              Inl e \<Rightarrow> (Inl e, w)
            | Inr None \<Rightarrow>
                (case getUnkownType (data input) of
                   Inl e \<Rightarrow> (Inl e, w)
                 | Inr t \<Rightarrow>
                     (Inr (Sync INVALID),
                      addIssueToContext ctx
                        \<lparr>code = invalid_type, expected = Some ''ObjectId | string'',
                         received = Some t, message = None\<rparr> w))
            | Inr (Some val) \<Rightarrow>
                (case ObjectId_new val w of
                   (Inr retval, w') \<Rightarrow>
                     (Inr (Sync (OK (if ctx_parseToBSON ctx w' then JObjectId retval
                                     else JStr (toHexString retval)))), w')
                 | (Inl e, w') \<Rightarrow>
                     (Inr (Sync INVALID),
                      addIssueToContext ctx
                        \<lparr>code = custom, expected = None, received = None,
                         message = Some (caught_message e)\<rparr> w')))))"

definition JamfObjectId_create :: JamfObjectId where
  "JamfObjectId_create =
     JamfObjectId \<lparr>errorMap = None, description = None, typeName = ObjectID\<rparr>"

definition objectid :: JamfObjectId where
  "objectid = JamfObjectId_create"

section \<open>Composite reference validator (JamfUtilities.ts)\<close>

datatype JamfDBRef = JamfDBRef (dbref_def: JamfDBRefDef) (objectIDSchema: JamfObjectId)

text \<open>The class constructor with its field initialiser \<open>objectIDSchema = objectid()\<close>.\<close>

definition JamfDBRef_new :: "JamfDBRefDef \<Rightarrow> JamfDBRef" where
  "JamfDBRef_new d = JamfDBRef d objectid"

text \<open>The condition \<open>typeof input.data === "object" && input.data.$ref && input.data.$id\<close>,
  evaluated left to right.\<close>

definition has_ref_and_id :: "jsval \<Rightarrow> exn + bool" where
  "has_ref_and_id d =
     (if js_typeof d = ''object''
      then (case get_prop d ''$ref'' of
              Inl e \<Rightarrow> Inl e
            | Inr r \<Rightarrow>
                (if truthy r
                 then (case get_prop d ''$id'' of Inl e \<Rightarrow> Inl e | Inr i \<Rightarrow> Inr (truthy i))
                 else Inr False))
      else Inr False)"

text \<open>The arguments of \<open>new bson.DBRef(input.data.$ref, result.value, input.data.$db)\<close> are
  read and the constructor is called inside the \<open>try\<close>.\<close>

definition try_new_DBRef :: "jsval \<Rightarrow> jsval \<Rightarrow> jsval eff" where
  "try_new_DBRef d v w =
     (case get_prop d ''$ref'' of
        Inl e \<Rightarrow> (Inl e, w)
      | Inr r \<Rightarrow>
          (case get_prop d ''$db'' of
             Inl e \<Rightarrow> (Inl e, w)
           | Inr dbv \<Rightarrow> DBRef_new r v dbv w))"

text \<open>The continuation passed to the helper.\<close>

definition JamfDBRef_logic ::
  "ParseInput \<Rightarrow> ParseContext \<Rightarrow> SyncParseReturnType \<Rightarrow> ParseReturnType eff" where
  "JamfDBRef_logic input ctx result w =
     (case result of
        OK v \<Rightarrow>
          (case try_new_DBRef (data input) v w of
             (Inr r, w') \<Rightarrow> (Inr (Sync (OK r)), w')
           | (Inl e, w') \<Rightarrow>
               (Inr (Sync INVALID),
                addIssueToContext ctx
                  \<lparr>code = custom, expected = None, received = None,
                   message = Some (caught_message e)\<rparr> w'))
      | _ \<Rightarrow> (Inr (Sync INVALID), w))"

definition JamfDBRef_parse :: "JamfDBRef \<Rightarrow> ParseInput \<Rightarrow> ParseReturnType eff" where
  "JamfDBRef_parse this input w =
     (case processInputParams (errorMap (dbref_def this)) input of (status, ctx) \<Rightarrow>
      (case data input of
         JDBRef c i d \<Rightarrow> (Inr (Sync (OK (data input))), w)
       | _ \<Rightarrow>
           (case has_ref_and_id (data input) of
              Inl e \<Rightarrow> (Inl e, w)
            | Inr True \<Rightarrow>
                (case get_prop (data input) ''$id'' of
                   Inl e \<Rightarrow> (Inl e, w)
                 | Inr idv \<Rightarrow>
                     handleNestedParsing (JamfObjectId_parse (objectIDSchema this))
                       (One (Key ''$id'')) input idv (JamfDBRef_logic input ctx) w)
            | Inr False \<Rightarrow>
                (case getUnkownType (data input) of
                   Inl e \<Rightarrow> (Inl e, w)
                 | Inr t \<Rightarrow>
                     (Inr (Sync INVALID),
                      addIssueToContext ctx
                        \<lparr>code = invalid_type, expected = Some ''DBRef'',
                         received = Some t, message = None\<rparr> w)))))"

definition JamfDBRef_create :: JamfObjectId where
  "JamfDBRef_create =
     JamfObjectId \<lparr>errorMap = None, description = None, typeName = ObjectID\<rparr>"

definition dbref :: JamfObjectId where
  "dbref = JamfDBRef_create"

section \<open>Entry points and result resolution (JamfType.ts)\<close>

text \<open>An instance of a subclass of the abstract class, with its \<open>_parse\<close> and its
  definition record.\<close>

datatype JamfType = ObjectId_schema JamfObjectId | DBRef_schema JamfDBRef

fun parse :: "JamfType \<Rightarrow> ParseInput \<Rightarrow> ParseReturnType eff" where
  "parse (ObjectId_schema v) = JamfObjectId_parse v"
| "parse (DBRef_schema v) = JamfDBRef_parse v"

fun def_of :: "JamfType \<Rightarrow> JamfObjectIdDef" where
  "def_of (ObjectId_schema v) = objectid_def v"
| "def_of (DBRef_schema v) = dbref_def v"

text \<open>A \<open>ZodError\<close> instance: its identity and the issues it was constructed from.\<close>

record ZodError =
  error_ref :: addr
  error_issues :: "ZodIssue list"

text \<open>A failure result is an object with the getter \<open>error\<close>, which closes over the
  context, and the field \<open>_error\<close> that the getter fills.\<close>

datatype SafeParseReturnType =
    SafeParseSuccess jsval
  | SafeParseError (closure_ctx: ParseContext) (error_memo: "ZodError option")

definition handleResult ::
  "ParseContext \<Rightarrow> SyncParseReturnType \<Rightarrow> world \<Rightarrow> exn + SafeParseReturnType" where
  "handleResult ctx result w =
     (case result of
        OK v \<Rightarrow> Inr (SafeParseSuccess v)
      | _ \<Rightarrow>
          (if length (issues (heap w (common ctx))) = 0
           then Inl (JsError ''Validation failed but no issues detected.'')
           else Inr (SafeParseError ctx None)))"

text \<open>Reading \<open>result.error\<close>: the value read, and the result object after the read.\<close>

definition get_error ::
  "SafeParseReturnType \<Rightarrow> world \<Rightarrow> (ZodError option \<times> SafeParseReturnType) \<times> world" where
  "get_error r w =
     (case r of
        SafeParseSuccess v \<Rightarrow> ((None, r), w)
      | SafeParseError ctx (Some e) \<Rightarrow> ((Some e, r), w)
      | SafeParseError ctx None \<Rightarrow>
          (let e = \<lparr>error_ref = next_addr w, error_issues = issues (heap w (common ctx))\<rparr>
           in ((Some e, SafeParseError ctx (Some e)), w\<lparr>next_addr := Suc (next_addr w)\<rparr>)))"

text \<open>The context object literal of \<open>safeParse\<close>, with its fresh \<open>common\<close> object.\<close>

definition safeParse_ctx ::
  "JamfType \<Rightarrow> jsval \<Rightarrow> JamfParseParams option \<Rightarrow> world \<Rightarrow> ParseContext \<times> world" where
  "safeParse_ctx this d params w =
     (let c = \<lparr>issues = [],
               async = (case Option.bind params params_async of Some b \<Rightarrow> b | None \<Rightarrow> False),
               parseToBSON =
                 Some (case Option.bind params params_parseToBSON of Some b \<Rightarrow> b | None \<Rightarrow> False),
               contextualErrorMap = Option.bind params params_errorMap\<rparr>;
          a = next_addr w
      in (ParseContext a (case Option.bind params params_path of Some p \<Rightarrow> p | None \<Rightarrow> [])
            (errorMap (def_of this)) None d (getParsedType d),
          w\<lparr>heap := (heap w)(a := c), next_addr := Suc a\<rparr>))"

definition safeParse ::
  "JamfType \<Rightarrow> jsval \<Rightarrow> JamfParseParams option \<Rightarrow> SafeParseReturnType eff" where
  "safeParse this d params w =
     (case safeParse_ctx this d params w of (ctx, w1) \<Rightarrow>
      (case parseSync (parse this) \<lparr>data = d, path = ctx_path ctx, parent = ctx\<rparr> w1 of
         (Inl e, w2) \<Rightarrow> (Inl e, w2)
       | (Inr result, w2) \<Rightarrow> (handleResult ctx result w2, w2)))"

text \<open>The context object literal of \<open>safeParseAsync\<close>.\<close>

definition safeParseAsync_ctx ::
  "JamfType \<Rightarrow> jsval \<Rightarrow> JamfParseParams option \<Rightarrow> world \<Rightarrow> ParseContext \<times> world" where
  "safeParseAsync_ctx this d params w =
     (let c = \<lparr>issues = [],
               async = True,
               parseToBSON =
                 Some (case Option.bind params params_parseToBSON of Some b \<Rightarrow> b | None \<Rightarrow> False),
               contextualErrorMap = Option.bind params params_errorMap\<rparr>;
          a = next_addr w
      in (ParseContext a (case Option.bind params params_path of Some p \<Rightarrow> p | None \<Rightarrow> [])
            (errorMap (def_of this)) None d (getParsedType d),
          w\<lparr>heap := (heap w)(a := c), next_addr := Suc a\<rparr>))"

text \<open>\<open>safeParseAsync\<close> is an \<open>async\<close> function: what is given here is the outcome its
  promise settles with once awaited, \<open>Inl\<close> being a rejection.\<close>

definition safeParseAsync ::
  "JamfType \<Rightarrow> jsval \<Rightarrow> JamfParseParams option \<Rightarrow> SafeParseReturnType eff" where
  "safeParseAsync this d params w =
     (case safeParseAsync_ctx this d params w of (ctx, w1) \<Rightarrow>
      (case parse this \<lparr>data = d, path = ctx_path ctx, parent = ctx\<rparr> w1 of
         (Inl e, w2) \<Rightarrow> (Inl e, w2)
       | (Inr maybeAsyncResult, w2) \<Rightarrow>
           (case settle (Promise_resolve maybeAsyncResult) w2 of
              (Inl e, w3) \<Rightarrow> (Inl e, w3)
            | (Inr result, w3) \<Rightarrow> (handleResult ctx result w3, w3))))"


section \<open>Observations and example inputs\<close>

text \<open>What a caller sees of a settled entry-point call: the thrown error, or the success
  flag with the data of a success and the issue sequence of the error of a failure.\<close>

definition outcome ::
  "(exn + SafeParseReturnType) \<times> world \<Rightarrow> exn + bool \<times> jsval option \<times> ZodIssue list" where
  "outcome rw =
     (case fst rw of
        Inl e \<Rightarrow> Inl e
      | Inr (SafeParseSuccess v) \<Rightarrow> Inr (True, Some v, [])
      | Inr (SafeParseError ctx m) \<Rightarrow>
          (case fst (fst (get_error (SafeParseError ctx m) (snd rw))) of
             Some e \<Rightarrow> Inr (False, None, error_issues e)
           | None \<Rightarrow> Inr (False, None, [])))"

text \<open>The issue sequence of a context's \<open>common\<close> object.\<close>

definition ctx_issues :: "ParseContext \<Rightarrow> world \<Rightarrow> ZodIssue list" where
  "ctx_issues ctx w = issues (heap w (common ctx))"

definition ctx_async :: "ParseContext \<Rightarrow> world \<Rightarrow> bool" where
  "ctx_async ctx w = async (heap w (common ctx))"

text \<open>Two worlds agree when they differ at most in the mode flags of the stored
  \<open>common\<close> objects and in the record of library calls.\<close>

definition agree :: "world \<Rightarrow> world \<Rightarrow> bool" where
  "agree w1 w2 =
     ((\<forall>a. issues (heap w1 a) = issues (heap w2 a)
           \<and> parseToBSON (heap w1 a) = parseToBSON (heap w2 a)
           \<and> contextualErrorMap (heap w1 a) = contextualErrorMap (heap w2 a))
      \<and> next_addr w1 = next_addr w2 \<and> oid_index w1 = oid_index w2
      \<and> process_unique w1 = process_unique w2 \<and> now w1 = now w2
      \<and> global_error_maps w1 = global_error_maps w2)"

text \<open>Awaiting what a parse step returned: \<open>await (isAsync(r) ? r : Promise.resolve(r))\<close>.\<close>

definition await_parse :: "ParseReturnType eff \<Rightarrow> SyncParseReturnType eff" where
  "await_parse f w =
     (case f w of
        (Inl e, w2) \<Rightarrow> (Inl e, w2)
      | (Inr m, w2) \<Rightarrow> settle (Promise_resolve m) w2)"

text \<open>The library calls made between two worlds of one run.\<close>

definition new_calls :: "world \<Rightarrow> world \<Rightarrow> lib_call list" where
  "new_calls w w' = drop (length (calls w)) (calls w')"

fun is_new_DBRef :: "lib_call \<Rightarrow> bool" where
  "is_new_DBRef (Call_new_DBRef c i d) = True"
| "is_new_DBRef c = False"

fun is_new_ObjectId :: "lib_call \<Rightarrow> bool" where
  "is_new_ObjectId (Call_new_ObjectId v) = True"
| "is_new_ObjectId c = False"

text \<open>Optional parameters as the entry points read them.\<close>

definition opt_async :: "JamfParseParams option \<Rightarrow> bool option" where
  "opt_async params = Option.bind params params_async"

definition opt_parseToBSON :: "JamfParseParams option \<Rightarrow> bool option" where
  "opt_parseToBSON params = Option.bind params params_parseToBSON"

definition opt_path :: "JamfParseParams option \<Rightarrow> path" where
  "opt_path params = (case Option.bind params params_path of Some p \<Rightarrow> p | None \<Rightarrow> [])"

text \<open>A world in which nothing has happened yet; its one global error map answers every
  issue with the same text.\<close>

definition fixed_error_map :: ZodErrorMap where
  "fixed_error_map issue fullPath d defaultError = ''Invalid input''"

definition empty_common :: common where
  "empty_common = \<lparr>issues = [], async = False, parseToBSON = None, contextualErrorMap = None\<rparr>"

definition world0 :: world where
  "world0 = \<lparr>heap = (\<lambda>a. empty_common), next_addr = 0, oid_index = 0, process_unique = 0,
              now = 0, global_error_maps = [fixed_error_map], calls = []\<rparr>"

text \<open>\<open>new JamfDBRef({typeName: JamfFirstPartyTypeKind.ObjectID})\<close>.\<close>

definition plain_def :: JamfObjectIdDef where
  "plain_def = \<lparr>errorMap = None, description = None, typeName = ObjectID\<rparr>"

definition dbref_validator :: JamfType where
  "dbref_validator = DBRef_schema (JamfDBRef_new plain_def)"

definition objectid_validator :: JamfType where
  "objectid_validator = ObjectId_schema objectid"

definition params_async_true :: "JamfParseParams option" where
  "params_async_true =
     Some \<lparr>params_path = None, params_errorMap = None, params_async = Some True,
           params_parseToBSON = None\<rparr>"

definition params_toBSON :: "bool \<Rightarrow> JamfParseParams option" where
  "params_toBSON b =
     Some \<lparr>params_path = None, params_errorMap = None, params_async = None,
           params_parseToBSON = Some b\<rparr>"

definition lower_hex :: string where
  "lower_hex = ''507f1f77bcf86cd799439011''"

definition upper_hex :: string where
  "upper_hex = ''507F1F77BCF86CD799439011''"

definition users_bad :: jsval where
  "users_bad = JObject (Some ''Object'') [(''$ref'', JStr ''users''), (''$id'', JStr ''bad'')]"

definition users_ok :: jsval where
  "users_ok = JObject (Some ''Object'') [(''$ref'', JStr ''users''), (''$id'', JStr lower_hex)]"

definition empty_ref :: jsval where
  "empty_ref = JObject (Some ''Object'') [(''$ref'', JStr []), (''$id'', JStr lower_hex)]"

definition zero_id :: jsval where
  "zero_id = JObject (Some ''Object'') [(''$ref'', JStr ''users''), (''$id'', JNum 0)]"

definition bare_empty_ref :: jsval where
  "bare_empty_ref = JObject None [(''$ref'', JStr []), (''$id'', JStr lower_hex)]"

definition null_constructor_ref :: jsval where
  "null_constructor_ref =
     JObject (Some ''Object'') [(''constructor'', JNull), (''$ref'', JStr [])]"


definition ctx0 :: ParseContext where
  "ctx0 = ParseContext 0 [] None None JNull PT_null"

definition boom :: IssueData where
  "boom = \<lparr>code = custom, expected = None, received = None, message = Some ''boom''\<rparr>"

definition world1 :: world where
  "world1 = addIssueToContext ctx0 boom world0"

text \<open>The world \<open>world0\<close> with the context \<open>ctx0\<close> in asynchronous mode.\<close>

definition world_async :: world where
  "world_async = world0\<lparr>heap := (heap world0)(0 := empty_common\<lparr>async := True\<rparr>)\<rparr>"

text \<open>The issue the identifier validator records for a string that is no identifier
  encoding, at a path.\<close>

definition malformed_issue :: "path \<Rightarrow> ZodIssue" where
  "malformed_issue p =
     \<lparr>issue_code = custom, issue_path = p,
      issue_message =
        ''input must be a 24 character hex string, 12 byte Uint8Array, or an integer'',
      issue_expected = None, issue_received = None\<rparr>"

text \<open>An input nested under the key \<open>owner\<close> of an enclosing value.\<close>

definition owner_input :: ParseInput where
  "owner_input = \<lparr>data = users_bad, path = [Key ''owner''], parent = ctx0\<rparr>"

section \<open>Hex encoding of identifiers\<close>

lemma hexval_lt: "hexval c = Some d \<Longrightarrow> d < 16"
  by (auto simp: hexval_def Let_def split: if_splits)

lemma hexval_hexchar: "d < 16 \<Longrightarrow> hexval (hexchar d) = Some d"
  by (auto simp: hexval_def hexchar_def Let_def)

lemma hexchar_hexval: "hexval c = Some d \<Longrightarrow> hexchar d = toLowerHex c"
  by (auto simp: hexval_def hexchar_def toLowerHex_def Let_def split: if_splits)

lemma parseHex_snoc: "parseHex (s @ [c]) = 16 * parseHex s + the (hexval c)"
  by (simp add: parseHex_def)

lemma parseHex_toHex: "parseHex (toHex k n) = n mod 16 ^ k"
proof (induction k arbitrary: n)
  case 0
  show ?case by (simp add: parseHex_def)
next
  case (Suc k)
  have "parseHex (toHex (Suc k) n) = 16 * ((n div 16) mod 16 ^ k) + n mod 16"
    by (simp add: parseHex_snoc Suc.IH hexval_hexchar)
  also have "\<dots> = n mod 16 ^ Suc k"
    by (simp add: mod_mult2_eq)
  finally show ?case .
qed

lemma toHex_parseHex:
  "list_all (\<lambda>c. hexval c \<noteq> None) s \<Longrightarrow> toHex (length s) (parseHex s) = map toLowerHex s"
proof (induction s rule: rev_induct)
  case Nil
  show ?case by simp
next
  case (snoc c s)
  then obtain d where d: "hexval c = Some d" by auto
  then have lt: "d < 16" by (rule hexval_lt)
  from snoc have IH: "toHex (length s) (parseHex s) = map toLowerHex s" by simp
  show ?case
    using lt by (simp add: parseHex_snoc d IH hexchar_hexval [OF d])
qed

lemma parseHex_bound:
  "list_all (\<lambda>c. hexval c \<noteq> None) s \<Longrightarrow> parseHex s < 16 ^ length s"
proof (induction s rule: rev_induct)
  case Nil
  show ?case by (simp add: parseHex_def)
next
  case (snoc c s)
  then obtain d where d: "hexval c = Some d" by auto
  then have lt: "d < 16" by (rule hexval_lt)
  from snoc have "parseHex s < 16 ^ length s" by simp
  then have "parseHex s + 1 \<le> 16 ^ length s" by simp
  then have "16 * (parseHex s + 1) \<le> 16 * 16 ^ length s" by (rule mult_le_mono2)
  then show ?case using lt by (simp add: parseHex_snoc d)
qed

lemma length_toHex: "length (toHex k n) = k"
  by (induction k arbitrary: n) auto

lemma hexval_toHex: "list_all (\<lambda>c. hexval c \<noteq> None) (toHex k n)"
  by (induction k arbitrary: n) (auto simp: hexval_hexchar)

lemma checkForHex_toHexString: "checkForHex (toHexString x)"
  unfolding checkForHex_def toHexString_def
  using hexval_toHex [of 24 "unat x"] length_toHex [of 24 "unat x"] by blast

lemma pow16_24: "(16::nat) ^ 24 = 2 ^ 96"
proof -
  have "(16::nat) = 2 ^ 4" by simp
  then have "(16::nat) ^ 24 = (2 ^ 4) ^ 24" by simp
  also have "\<dots> = 2 ^ 96" by (simp only: power_mult [symmetric]) simp
  finally show ?thesis .
qed

lemma fromHex_toHexString: "fromHex (toHexString x) = x"
proof -
  have "unat x < 2 ^ 96" using unsigned_less [of x] by simp
  then have "unat x mod 16 ^ 24 = unat x" by (simp add: pow16_24)
  then show ?thesis
    by (simp add: fromHex_def toHexString_def parseHex_toHex)
qed

lemma toHexString_fromHex:
  assumes "checkForHex s"
  shows "toHexString (fromHex s) = map toLowerHex s"
proof -
  from assms have len: "length s = 24" and hex: "list_all (\<lambda>c. hexval c \<noteq> None) s"
    by (simp_all add: checkForHex_def)
  have "parseHex s < 2 ^ 96" using parseHex_bound [OF hex] by (simp add: len pow16_24)
  then have "unat (of_nat (parseHex s) :: 96 word) = parseHex s"
    by (simp add: unat_of_nat)
  then show ?thesis
    using toHex_parseHex [OF hex] by (simp add: fromHex_def toHexString_def len)
qed

lemma checkForHex_lower_hex: "checkForHex lower_hex"
  by (simp add: checkForHex_def hexval_def lower_hex_def)

lemma checkForHex_upper_hex: "checkForHex upper_hex"
  by (simp add: checkForHex_def hexval_def upper_hex_def)

lemma toLowerHex_lower_hex: "map toLowerHex lower_hex = lower_hex"
  by (simp add: toLowerHex_def lower_hex_def)

lemma toLowerHex_upper_hex: "map toLowerHex upper_hex = lower_hex"
  by (simp add: toLowerHex_def lower_hex_def upper_hex_def char_of_eq_iff)

section \<open>The parse steps, unfolded\<close>

lemma ctx_parseToBSON_record_call [simp]:
  "ctx_parseToBSON ctx (record_call c w) = ctx_parseToBSON ctx w"
  by (simp add: ctx_parseToBSON_def record_call_def)

lemma ObjectId_new_string:
  "ObjectId_new (JStr s) w = (ObjectId_of_string s, record_call (Call_new_ObjectId (JStr s)) w)"
  by (simp add: ObjectId_new_def Let_def)

lemma ObjectId_of_string_hex: "checkForHex s \<Longrightarrow> ObjectId_of_string s = Inr (fromHex s)"
  by (simp add: ObjectId_of_string_def)

lemma ObjectId_of_string_toHexString: "ObjectId_of_string (toHexString x) = Inr x"
  by (simp add: ObjectId_of_string_def checkForHex_toHexString fromHex_toHexString)

lemma JamfObjectId_parse_native:
  assumes "data input = JObjectId x"
  shows "JamfObjectId_parse this input w =
     (Inr (Sync (OK (JObjectId x))),
      if ctx_parseToBSON (snd (processInputParams (errorMap (objectid_def this)) input)) w then w
      else record_call (Call_new_ObjectId (JStr (toHexString x))) w)"
  using assms
  by (simp add: JamfObjectId_parse_def ObjectId_new_string ObjectId_of_string_toHexString
      split: prod.splits)

lemma JamfObjectId_parse_other:
  assumes "\<not> instanceof_ObjectId (data input)"
  shows "JamfObjectId_parse this input w =
     (case candidate (data input) of
        Inl e \<Rightarrow> (Inl e, w)
      | Inr None \<Rightarrow>
          (case getUnkownType (data input) of
             Inl e \<Rightarrow> (Inl e, w)
           | Inr t \<Rightarrow>
               (Inr (Sync INVALID),
                addIssueToContext (snd (processInputParams (errorMap (objectid_def this)) input))
                  \<lparr>code = invalid_type, expected = Some ''ObjectId | string'',
                   received = Some t, message = None\<rparr> w))
      | Inr (Some val) \<Rightarrow>
          (case fst (ObjectId_new val w) of
             Inr retval \<Rightarrow>
               (Inr (Sync (OK (if ctx_parseToBSON
                                    (snd (processInputParams (errorMap (objectid_def this)) input))
                                    (snd (ObjectId_new val w))
                               then JObjectId retval else JStr (toHexString retval)))),
                snd (ObjectId_new val w))
           | Inl e \<Rightarrow>
               (Inr (Sync INVALID),
                addIssueToContext (snd (processInputParams (errorMap (objectid_def this)) input))
                  \<lparr>code = custom, expected = None, received = None,
                   message = Some (caught_message e)\<rparr> (snd (ObjectId_new val w)))))"
  using assms
  by (cases "data input")
     (simp_all add: JamfObjectId_parse_def split: prod.splits sum.splits option.splits)

lemma JamfObjectId_parse_string:
  assumes "data input = JStr s" and "checkForHex s"
  shows "JamfObjectId_parse this input w =
     (Inr (Sync (OK (if ctx_parseToBSON
                          (snd (processInputParams (errorMap (objectid_def this)) input)) w
                     then JObjectId (fromHex s) else JStr (map toLowerHex s)))),
      record_call (Call_new_ObjectId (JStr s)) w)"
  using assms
  by (simp add: JamfObjectId_parse_other candidate_def ObjectId_new_string ObjectId_of_string_hex
      toHexString_fromHex)

lemma JamfObjectId_parse_not_async: "fst (JamfObjectId_parse v i w) \<noteq> Inr (Async p)"
proof (cases "data i")
  case (JObjectId x)
  then show ?thesis by (simp add: JamfObjectId_parse_native)
qed (simp_all add: JamfObjectId_parse_other split: sum.splits option.splits)

lemma JamfDBRef_parse_native:
  assumes "instanceof_DBRef (data input)"
  shows "JamfDBRef_parse this input w = (Inr (Sync (OK (data input))), w)"
  using assms
  by (cases "data input") (simp_all add: JamfDBRef_parse_def split: prod.splits)

lemma JamfDBRef_parse_other:
  assumes "\<not> instanceof_DBRef (data input)"
  shows "JamfDBRef_parse this input w =
     (case has_ref_and_id (data input) of
        Inl e \<Rightarrow> (Inl e, w)
      | Inr True \<Rightarrow>
          (case get_prop (data input) ''$id'' of
             Inl e \<Rightarrow> (Inl e, w)
           | Inr idv \<Rightarrow>
               handleNestedParsing (JamfObjectId_parse (objectIDSchema this))
                 (One (Key ''$id'')) input idv
                 (JamfDBRef_logic input
                    (snd (processInputParams (errorMap (dbref_def this)) input))) w)
      | Inr False \<Rightarrow>
          (case getUnkownType (data input) of
             Inl e \<Rightarrow> (Inl e, w)
           | Inr t \<Rightarrow>
               (Inr (Sync INVALID),
                addIssueToContext (snd (processInputParams (errorMap (dbref_def this)) input))
                  \<lparr>code = invalid_type, expected = Some ''DBRef'',
                   received = Some t, message = None\<rparr> w)))"
  using assms
  by (cases "data input")
     (simp_all add: JamfDBRef_parse_def split: prod.splits sum.splits bool.splits)

lemma JamfDBRef_logic_sync: "\<exists>r'. fst (JamfDBRef_logic input ctx r w) = Inr (Sync r')"
  by (auto simp: JamfDBRef_logic_def case_prod_beta split: SyncParseReturnType.splits sum.splits)

section \<open>Worlds that agree\<close>

lemma agree_refl: "agree w w"
  by (simp add: agree_def)

lemma agree_record_call_l: "agree (record_call c w1) w2 = agree w1 w2"
  by (simp add: agree_def record_call_def)

lemma agree_record_call_r: "agree w1 (record_call c w2) = agree w1 w2"
  by (simp add: agree_def record_call_def)

lemma agree_addIssue:
  "agree w1 w2 \<Longrightarrow> agree (addIssueToContext ctx i w1) (addIssueToContext ctx i w2)"
  by (simp add: agree_def addIssueToContext_def Let_def)

lemma agree_parseToBSON: "agree w1 w2 \<Longrightarrow> ctx_parseToBSON ctx w1 = ctx_parseToBSON ctx w2"
  by (simp add: agree_def ctx_parseToBSON_def)

lemma agree_ctx_issues: "agree w1 w2 \<Longrightarrow> ctx_issues ctx w1 = ctx_issues ctx w2"
  by (simp add: agree_def ctx_issues_def)

lemma agree_generate:
  "agree w1 w2 \<Longrightarrow> fst (generate t w1) = fst (generate t w2)
     \<and> agree (snd (generate t w1)) (snd (generate t w2))"
  by (simp add: agree_def generate_def Let_def)

lemma agree_ObjectId_new:
  assumes "agree w1 w2"
  shows "fst (ObjectId_new x w1) = fst (ObjectId_new x w2)
     \<and> agree (snd (ObjectId_new x w1)) (snd (ObjectId_new x w2))"
proof -
  have g: "\<And>t. fst (generate t (record_call (Call_new_ObjectId x) w1))
              = fst (generate t (record_call (Call_new_ObjectId x) w2))
            \<and> agree (snd (generate t (record_call (Call_new_ObjectId x) w1)))
                (snd (generate t (record_call (Call_new_ObjectId x) w2)))"
    using assms by (intro agree_generate) (simp add: agree_record_call_l agree_record_call_r)
  have n: "now (record_call (Call_new_ObjectId x) w1) = now (record_call (Call_new_ObjectId x) w2)"
    using assms by (simp add: agree_def record_call_def)
  show ?thesis
    using assms g n
    by (cases x)
       (auto simp: ObjectId_new_def Let_def agree_record_call_l agree_record_call_r case_prod_beta
          split: option.splits jsval.splits)
qed

lemma agree_DBRef_new:
  "agree w1 w2 \<Longrightarrow> fst (DBRef_new c i d w1) = fst (DBRef_new c i d w2)
     \<and> agree (snd (DBRef_new c i d w1)) (snd (DBRef_new c i d w2))"
  by (simp add: DBRef_new_def agree_record_call_l agree_record_call_r)

lemma agree_try_new_DBRef:
  assumes "agree w1 w2"
  shows "fst (try_new_DBRef d v w1) = fst (try_new_DBRef d v w2)
     \<and> agree (snd (try_new_DBRef d v w1)) (snd (try_new_DBRef d v w2))"
proof (cases "get_prop d ''$ref''")
  case (Inl e)
  then show ?thesis using assms by (simp add: try_new_DBRef_def)
next
  case (Inr r)
  show ?thesis
  proof (cases "get_prop d ''$db''")
    case (Inl e)
    then show ?thesis using assms Inr by (simp add: try_new_DBRef_def)
  next
    case (Inr dbv)
    then show ?thesis
      using agree_DBRef_new [OF assms, of r v dbv] \<open>get_prop d ''$ref'' = Inr r\<close>
      by (simp add: try_new_DBRef_def)
  qed
qed

lemma agree_JamfDBRef_logic:
  assumes "agree w1 w2"
  shows "fst (JamfDBRef_logic input ctx r w1) = fst (JamfDBRef_logic input ctx r w2)
     \<and> agree (snd (JamfDBRef_logic input ctx r w1)) (snd (JamfDBRef_logic input ctx r w2))"
proof (cases r)
  case (OK v)
  note t = agree_try_new_DBRef [OF assms, of "data input" v]
  show ?thesis
  proof (cases "fst (try_new_DBRef (data input) v w2)")
    case (Inl e)
    then show ?thesis
      using t OK by (simp add: JamfDBRef_logic_def case_prod_beta agree_addIssue)
  next
    case (Inr x)
    then show ?thesis
      using t OK by (simp add: JamfDBRef_logic_def case_prod_beta)
  qed
qed (simp_all add: JamfDBRef_logic_def assms)

lemma agree_JamfObjectId_parse:
  assumes "agree w1 w2"
  shows "fst (JamfObjectId_parse v i w1) = fst (JamfObjectId_parse v i w2)
     \<and> agree (snd (JamfObjectId_parse v i w1)) (snd (JamfObjectId_parse v i w2))"
proof (cases "instanceof_ObjectId (data i)")
  case True
  then obtain x where x: "data i = JObjectId x" by (cases "data i") simp_all
  show ?thesis
    using assms agree_parseToBSON [OF assms]
    by (simp add: JamfObjectId_parse_native [OF x] agree_record_call_l agree_record_call_r)
next
  case False
  note unf = JamfObjectId_parse_other [OF False]
  show ?thesis
  proof (cases "candidate (data i)")
    case (Inl e)
    then show ?thesis using assms by (simp add: unf)
  next
    case (Inr c)
    show ?thesis
    proof (cases c)
      case None
      then show ?thesis
        using assms Inr by (simp add: unf agree_addIssue split: sum.splits)
    next
      case (Some val)
      note n = agree_ObjectId_new [OF assms, of val]
      then have p: "\<And>ctx. ctx_parseToBSON ctx (snd (ObjectId_new val w1))
                       = ctx_parseToBSON ctx (snd (ObjectId_new val w2))"
        by (simp add: agree_parseToBSON)
      show ?thesis
      proof (cases "fst (ObjectId_new val w2)")
        case (Inl e)
        then show ?thesis using n Inr Some by (simp add: unf agree_addIssue)
      next
        case (Inr y)
        then show ?thesis using n p \<open>candidate (data i) = Inr c\<close> Some by (simp add: unf)
      qed
    qed
  qed
qed

section \<open>Synchronous and deferred runs\<close>

lemma parseSync_unfold:
  "parseSync f i w =
     (case fst (f i (record_call (Call_parseSync i) w)) of
        Inl e \<Rightarrow> (Inl e, snd (f i (record_call (Call_parseSync i) w)))
      | Inr (Sync r) \<Rightarrow> (Inr r, snd (f i (record_call (Call_parseSync i) w)))
      | Inr (Async p) \<Rightarrow> (Inl sync_error, snd (f i (record_call (Call_parseSync i) w))))"
  by (simp add: parseSync_def split: prod.splits sum.splits ParseReturnType.splits)

lemma await_parse_unfold:
  "await_parse g w =
     (case fst (g w) of
        Inl e \<Rightarrow> (Inl e, snd (g w))
      | Inr (Sync r) \<Rightarrow> (Inr r, snd (g w))
      | Inr (Async p) \<Rightarrow> settle p (snd (g w)))"
  by (simp add: await_parse_def split: prod.splits sum.splits ParseReturnType.splits)

lemma nested_sync_unfold:
  assumes "\<not> async (heap w (common (parent input)))"
  shows "handleNestedParsing f seg input idv logic w =
     (case fst (f (nested_input seg input idv)
                  (record_call (Call_parseSync (nested_input seg input idv)) w)) of
        Inl e \<Rightarrow> (Inl e, snd (f (nested_input seg input idv)
                  (record_call (Call_parseSync (nested_input seg input idv)) w)))
      | Inr (Sync r) \<Rightarrow> logic r (snd (f (nested_input seg input idv)
                  (record_call (Call_parseSync (nested_input seg input idv)) w)))
      | Inr (Async p) \<Rightarrow> (Inl sync_error, snd (f (nested_input seg input idv)
                  (record_call (Call_parseSync (nested_input seg input idv)) w))))"
  using assms
  by (simp add: handleNestedParsing_def Let_def parseSync_unfold
      split: sum.splits ParseReturnType.splits)

lemma nested_async_unfold:
  assumes "async (heap w (common (parent input)))"
  shows "handleNestedParsing f seg input idv logic w =
     (case fst (f (nested_input seg input idv)
                  (record_call (Call_parseAsync (nested_input seg input idv)) w)) of
        Inl e \<Rightarrow> (Inl e, snd (f (nested_input seg input idv)
                  (record_call (Call_parseAsync (nested_input seg input idv)) w)))
      | Inr m \<Rightarrow> (Inr (Async (then_promise (Promise_resolve m) logic)),
                  snd (f (nested_input seg input idv)
                  (record_call (Call_parseAsync (nested_input seg input idv)) w))))"
  using assms
  by (simp add: handleNestedParsing_def Let_def parseAsync_def
      split: sum.splits prod.splits)

lemma settle_then_sync:
  "settle (then_promise (Promise_resolve (Sync r)) logic) w =
     (case fst (logic r w) of
        Inl e \<Rightarrow> (Inl e, snd (logic r w))
      | Inr (Sync r') \<Rightarrow> (Inr r', snd (logic r w))
      | Inr (Async q) \<Rightarrow> settle q (snd (logic r w)))"
  by (simp add: then_promise_def split: prod.splits sum.splits ParseReturnType.splits)

lemma objectid_run:
  assumes "agree w1 w2"
  shows "fst (parseSync (JamfObjectId_parse v) i w1) = fst (await_parse (JamfObjectId_parse v i) w2)
     \<and> agree (snd (parseSync (JamfObjectId_parse v) i w1))
          (snd (await_parse (JamfObjectId_parse v i) w2))"
proof -
  have ag: "agree (record_call (Call_parseSync i) w1) w2"
    using assms by (simp add: agree_record_call_l)
  note a = agree_JamfObjectId_parse [OF ag, of v i]
  show ?thesis
  proof (cases "fst (JamfObjectId_parse v i w2)")
    case (Inl e)
    then show ?thesis using a by (simp add: parseSync_unfold await_parse_unfold)
  next
    case (Inr m)
    then obtain r where "m = Sync r"
      using JamfObjectId_parse_not_async [of v i w2] by (cases m) auto
    then show ?thesis using a Inr by (simp add: parseSync_unfold await_parse_unfold)
  qed
qed

lemma nested_runs:
  assumes ag: "agree w1 w2"
    and a2: "async (heap w2 (common (parent input)))"
    and ns: "fst (parseSync (\<lambda>i. handleNestedParsing (JamfObjectId_parse s) seg i idv
                      (JamfDBRef_logic i ctx)) input w1) \<noteq> Inl sync_error"
  shows "fst (parseSync (\<lambda>i. handleNestedParsing (JamfObjectId_parse s) seg i idv
                      (JamfDBRef_logic i ctx)) input w1)
           = fst (await_parse (handleNestedParsing (JamfObjectId_parse s) seg input idv
                      (JamfDBRef_logic input ctx)) w2)
     \<and> agree (snd (parseSync (\<lambda>i. handleNestedParsing (JamfObjectId_parse s) seg i idv
                      (JamfDBRef_logic i ctx)) input w1))
          (snd (await_parse (handleNestedParsing (JamfObjectId_parse s) seg input idv
                      (JamfDBRef_logic input ctx)) w2))"
proof -
  define X where "X = nested_input seg input idv"
  define W1 where "W1 = record_call (Call_parseSync input) w1"
  define L where "L = JamfDBRef_logic input ctx"
  define N where "N = handleNestedParsing (JamfObjectId_parse s) seg input idv L"
  define S2 where "S2 = JamfObjectId_parse s X (record_call (Call_parseAsync X) w2)"
  have f1: "async (heap W1 (common (parent input))) = async (heap w1 (common (parent input)))"
    by (simp add: W1_def record_call_def)
  have PS: "parseSync (\<lambda>i. handleNestedParsing (JamfObjectId_parse s) seg i idv
                      (JamfDBRef_logic i ctx)) input w1
      = (case fst (N W1) of
           Inl e \<Rightarrow> (Inl e, snd (N W1))
         | Inr (Sync r) \<Rightarrow> (Inr r, snd (N W1))
         | Inr (Async p) \<Rightarrow> (Inl sync_error, snd (N W1)))"
    unfolding N_def L_def W1_def by (simp add: parseSync_unfold)
  have AW: "await_parse (handleNestedParsing (JamfObjectId_parse s) seg input idv
                      (JamfDBRef_logic input ctx)) w2
      = (case fst (N w2) of
           Inl e \<Rightarrow> (Inl e, snd (N w2))
         | Inr (Sync r) \<Rightarrow> (Inr r, snd (N w2))
         | Inr (Async p) \<Rightarrow> settle p (snd (N w2)))"
    unfolding N_def L_def by (simp add: await_parse_unfold)
  have R2: "N w2 = (case fst S2 of Inl e \<Rightarrow> (Inl e, snd S2)
         | Inr m \<Rightarrow> (Inr (Async (then_promise (Promise_resolve m) L)), snd S2))"
    unfolding S2_def X_def N_def by (rule nested_async_unfold [OF a2])
  have nas: "\<And>p. fst S2 \<noteq> Inr (Async p)"
    unfolding S2_def by (rule JamfObjectId_parse_not_async)
  show ?thesis
  proof (cases "async (heap w1 (common (parent input)))")
    case False
    define S1 where "S1 = JamfObjectId_parse s X (record_call (Call_parseSync X) W1)"
    have agS: "agree (record_call (Call_parseSync X) W1) (record_call (Call_parseAsync X) w2)"
      using ag by (simp add: W1_def agree_record_call_l agree_record_call_r)
    have a: "fst S1 = fst S2" "agree (snd S1) (snd S2)"
      using agree_JamfObjectId_parse [OF agS, of s X] by (simp_all add: S1_def S2_def)
    have R1: "N W1 = (case fst S1 of Inl e \<Rightarrow> (Inl e, snd S1)
         | Inr (Sync r) \<Rightarrow> L r (snd S1)
         | Inr (Async p) \<Rightarrow> (Inl sync_error, snd S1))"
      unfolding S1_def X_def N_def using False f1 by (intro nested_sync_unfold) simp
    show ?thesis
    proof (cases "fst S2")
      case (Inl e)
      have "N W1 = (Inl e, snd S1)" using Inl a(1) by (simp add: R1)
      moreover have "N w2 = (Inl e, snd S2)" using Inl by (simp add: R2)
      ultimately show ?thesis using a(2) by (simp add: PS AW)
    next
      case (Inr m)
      then obtain r where m: "m = Sync r" using nas by (cases m) auto
      obtain r1 where l1: "fst (L r (snd S1)) = Inr (Sync r1)"
        unfolding L_def using JamfDBRef_logic_sync by blast
      have l: "fst (L r (snd S1)) = fst (L r (snd S2))"
          "agree (snd (L r (snd S1))) (snd (L r (snd S2)))"
        unfolding L_def using agree_JamfDBRef_logic [OF a(2), of input ctx r] by simp_all
      have l2: "fst (L r (snd S2)) = Inr (Sync r1)" using l(1) l1 by simp
      have n1: "N W1 = L r (snd S1)" using Inr m a(1) by (simp add: R1)
      have n2: "N w2 = (Inr (Async (then_promise (Promise_resolve (Sync r)) L)), snd S2)"
        using Inr m by (simp add: R2 del: Promise_resolve.simps)
      have p1: "parseSync (\<lambda>i. handleNestedParsing (JamfObjectId_parse s) seg i idv
                      (JamfDBRef_logic i ctx)) input w1 = (Inr r1, snd (L r (snd S1)))"
        by (simp add: PS n1 l1)
      have p2: "await_parse (handleNestedParsing (JamfObjectId_parse s) seg input idv
                      (JamfDBRef_logic input ctx)) w2 = (Inr r1, snd (L r (snd S2)))"
        by (simp add: AW n2 settle_then_sync l2 del: Promise_resolve.simps)
      show ?thesis using l(2) by (simp add: p1 p2)
    qed
  next
    case True
    define S1 where "S1 = JamfObjectId_parse s X (record_call (Call_parseAsync X) W1)"
    have agS: "agree (record_call (Call_parseAsync X) W1) (record_call (Call_parseAsync X) w2)"
      using ag by (simp add: W1_def agree_record_call_l agree_record_call_r)
    have a: "fst S1 = fst S2" "agree (snd S1) (snd S2)"
      using agree_JamfObjectId_parse [OF agS, of s X] by (simp_all add: S1_def S2_def)
    have R1: "N W1 = (case fst S1 of Inl e \<Rightarrow> (Inl e, snd S1)
         | Inr m \<Rightarrow> (Inr (Async (then_promise (Promise_resolve m) L)), snd S1))"
      unfolding S1_def X_def N_def using True f1 by (intro nested_async_unfold) simp
    show ?thesis
    proof (cases "fst S2")
      case (Inl e)
      have "N W1 = (Inl e, snd S1)" using Inl a(1) by (simp add: R1)
      moreover have "N w2 = (Inl e, snd S2)" using Inl by (simp add: R2)
      ultimately show ?thesis using a(2) by (simp add: PS AW)
    next
      case (Inr m)
      have "N W1 = (Inr (Async (then_promise (Promise_resolve m) L)), snd S1)"
        using Inr a(1) by (simp add: R1)
      then have False using ns by (simp add: PS)
      then show ?thesis ..
    qed
  qed
qed

lemma parseSync_cong: "f i = g i \<Longrightarrow> parseSync f i w = parseSync g i w"
  by (simp add: parseSync_def)

lemma dbref_run:
  assumes ag: "agree w1 w2"
    and a2: "async (heap w2 (common (parent input)))"
    and ns: "fst (parseSync (JamfDBRef_parse v) input w1) \<noteq> Inl sync_error"
  shows "fst (parseSync (JamfDBRef_parse v) input w1)
           = fst (await_parse (JamfDBRef_parse v input) w2)
     \<and> agree (snd (parseSync (JamfDBRef_parse v) input w1))
          (snd (await_parse (JamfDBRef_parse v input) w2))"
proof (cases "instanceof_DBRef (data input)")
  case True
  show ?thesis
    using ag
    by (simp add: parseSync_unfold await_parse_unfold JamfDBRef_parse_native [OF True]
        agree_record_call_l)
next
  case False
  note unf = JamfDBRef_parse_other [OF False]
  define ctx where "ctx = snd (processInputParams (errorMap (dbref_def v)) input)"
  have ag1: "agree (record_call (Call_parseSync input) w1) w2"
    using ag by (simp add: agree_record_call_l)
  show ?thesis
  proof (cases "has_ref_and_id (data input)")
    case (Inl e)
    then show ?thesis
      using ag1 by (simp add: parseSync_unfold await_parse_unfold unf)
  next
    case (Inr b)
    show ?thesis
    proof (cases b)
      case False
      show ?thesis
      proof (cases "getUnkownType (data input)")
        case (Inl e)
        then show ?thesis
          using ag1 Inr False by (simp add: parseSync_unfold await_parse_unfold unf)
      next
        case (Inr t)
        then show ?thesis
          using agree_addIssue [OF ag1] \<open>has_ref_and_id (data input) = Inr b\<close> False
          by (simp add: parseSync_unfold await_parse_unfold unf)
      qed
    next
      case True
      show ?thesis
      proof (cases "get_prop (data input) ''$id''")
        case (Inl e)
        then show ?thesis
          using ag1 Inr True by (simp add: parseSync_unfold await_parse_unfold unf)
      next
        case (Inr idv)
        have eq: "JamfDBRef_parse v input =
            (\<lambda>i. handleNestedParsing (JamfObjectId_parse (objectIDSchema v)) (One (Key ''$id'')) i
                   idv (JamfDBRef_logic i ctx)) input"
          using \<open>has_ref_and_id (data input) = Inr b\<close> True Inr
          by (intro ext) (simp add: unf ctx_def)
        have ps: "parseSync (JamfDBRef_parse v) input w1 =
            parseSync (\<lambda>i. handleNestedParsing (JamfObjectId_parse (objectIDSchema v))
                   (One (Key ''$id'')) i idv (JamfDBRef_logic i ctx)) input w1"
          by (rule parseSync_cong) (rule eq)
        have aw: "await_parse (JamfDBRef_parse v input) w2 =
            await_parse (handleNestedParsing (JamfObjectId_parse (objectIDSchema v))
                   (One (Key ''$id'')) input idv (JamfDBRef_logic input ctx)) w2"
          using eq by simp
        show ?thesis
          unfolding ps aw
          using ns unfolding ps
          by (rule nested_runs [OF ag a2])
      qed
    qed
  qed
qed

lemma parse_run:
  assumes ag: "agree w1 w2"
    and a2: "async (heap w2 (common (parent input)))"
    and ns: "fst (parseSync (parse this) input w1) \<noteq> Inl sync_error"
  shows "fst (parseSync (parse this) input w1) = fst (await_parse (parse this input) w2)
     \<and> agree (snd (parseSync (parse this) input w1)) (snd (await_parse (parse this input) w2))"
proof (cases this)
  case (ObjectId_schema v)
  then show ?thesis using objectid_run [OF ag, of v input] by simp
next
  case (DBRef_schema v)
  then show ?thesis using dbref_run [OF ag a2, of v] ns by simp
qed

section \<open>The entry points, unfolded\<close>

lemma safeParse_unfold:
  "safeParse this d params w =
     (case fst (parseSync (parse this)
                  \<lparr>data = d, path = ctx_path (fst (safeParse_ctx this d params w)),
                   parent = fst (safeParse_ctx this d params w)\<rparr>
                  (snd (safeParse_ctx this d params w))) of
        Inl e \<Rightarrow> (Inl e, snd (parseSync (parse this)
                  \<lparr>data = d, path = ctx_path (fst (safeParse_ctx this d params w)),
                   parent = fst (safeParse_ctx this d params w)\<rparr>
                  (snd (safeParse_ctx this d params w))))
      | Inr result \<Rightarrow>
          (handleResult (fst (safeParse_ctx this d params w)) result
             (snd (parseSync (parse this)
                  \<lparr>data = d, path = ctx_path (fst (safeParse_ctx this d params w)),
                   parent = fst (safeParse_ctx this d params w)\<rparr>
                  (snd (safeParse_ctx this d params w)))),
           snd (parseSync (parse this)
                  \<lparr>data = d, path = ctx_path (fst (safeParse_ctx this d params w)),
                   parent = fst (safeParse_ctx this d params w)\<rparr>
                  (snd (safeParse_ctx this d params w)))))"
  by (simp add: safeParse_def split: prod.splits sum.splits)

lemma safeParseAsync_unfold:
  "safeParseAsync this d params w =
     (case fst (await_parse (parse this
                  \<lparr>data = d, path = ctx_path (fst (safeParseAsync_ctx this d params w)),
                   parent = fst (safeParseAsync_ctx this d params w)\<rparr>)
                  (snd (safeParseAsync_ctx this d params w))) of
        Inl e \<Rightarrow> (Inl e, snd (await_parse (parse this
                  \<lparr>data = d, path = ctx_path (fst (safeParseAsync_ctx this d params w)),
                   parent = fst (safeParseAsync_ctx this d params w)\<rparr>)
                  (snd (safeParseAsync_ctx this d params w))))
      | Inr result \<Rightarrow>
          (handleResult (fst (safeParseAsync_ctx this d params w)) result
             (snd (await_parse (parse this
                  \<lparr>data = d, path = ctx_path (fst (safeParseAsync_ctx this d params w)),
                   parent = fst (safeParseAsync_ctx this d params w)\<rparr>)
                  (snd (safeParseAsync_ctx this d params w)))),
           snd (await_parse (parse this
                  \<lparr>data = d, path = ctx_path (fst (safeParseAsync_ctx this d params w)),
                   parent = fst (safeParseAsync_ctx this d params w)\<rparr>)
                  (snd (safeParseAsync_ctx this d params w)))))"
  by (simp add: safeParseAsync_def await_parse_def split: prod.splits sum.splits)

lemma entry_ctx_eq:
  "fst (safeParseAsync_ctx this d params w) = fst (safeParse_ctx this d params w)"
  by (simp add: safeParse_ctx_def safeParseAsync_ctx_def Let_def)

lemma entry_ctx_agree:
  "agree (snd (safeParse_ctx this d params w)) (snd (safeParseAsync_ctx this d params w))"
  by (simp add: safeParse_ctx_def safeParseAsync_ctx_def Let_def agree_def)

lemma entry_ctx_async:
  "async (heap (snd (safeParseAsync_ctx this d params w))
            (common (fst (safeParse_ctx this d params w))))"
  by (simp add: safeParse_ctx_def safeParseAsync_ctx_def Let_def)

lemma agree_handleResult:
  "agree w1 w2 \<Longrightarrow> handleResult ctx r w1 = handleResult ctx r w2"
  by (simp add: handleResult_def agree_def split: SyncParseReturnType.splits)

lemma agree_outcome:
  "agree w1 w2 \<Longrightarrow> outcome (x, w1) = outcome (x, w2)"
  by (auto simp: outcome_def get_error_def agree_def Let_def
      split: sum.splits SafeParseReturnType.splits option.splits)

lemma entry_points_agree:
  assumes "fst (safeParse this d params w) \<noteq> Inl sync_error"
  shows "outcome (safeParse this d params w) = outcome (safeParseAsync this d params w)"
proof -
  define ctx where "ctx = fst (safeParse_ctx this d params w)"
  define input where "input = \<lparr>data = d, path = ctx_path ctx, parent = ctx\<rparr>"
  define ws where "ws = snd (safeParse_ctx this d params w)"
  define wa where "wa = snd (safeParseAsync_ctx this d params w)"
  define R1 where "R1 = parseSync (parse this) input ws"
  define R2 where "R2 = await_parse (parse this input) wa"
  have S: "safeParse this d params w =
      (case fst R1 of Inl e \<Rightarrow> (Inl e, snd R1)
       | Inr result \<Rightarrow> (handleResult ctx result (snd R1), snd R1))"
    unfolding R1_def input_def ctx_def ws_def by (rule safeParse_unfold)
  have A: "safeParseAsync this d params w =
      (case fst R2 of Inl e \<Rightarrow> (Inl e, snd R2)
       | Inr result \<Rightarrow> (handleResult ctx result (snd R2), snd R2))"
    unfolding R2_def input_def ctx_def wa_def entry_ctx_eq [symmetric]
    by (rule safeParseAsync_unfold)
  have ag: "agree ws wa" unfolding ws_def wa_def by (rule entry_ctx_agree)
  have a2: "async (heap wa (common (parent input)))"
    unfolding wa_def input_def ctx_def using entry_ctx_async [of this d params w] by simp
  have ns: "fst R1 \<noteq> Inl sync_error"
    using assms by (auto simp: S)
  have r: "fst R1 = fst R2" "agree (snd R1) (snd R2)"
    using parse_run [OF ag a2, of this] ns by (simp_all add: R1_def R2_def)
  show ?thesis
  proof (cases "fst R2")
    case (Inl e)
    then show ?thesis using r(1) by (simp add: S A outcome_def)
  next
    case (Inr result)
    have "outcome (handleResult ctx result (snd R1), snd R1)
        = outcome (handleResult ctx result (snd R2), snd R2)"
      using agree_outcome [OF r(2)] agree_handleResult [OF r(2)] by simp
    then show ?thesis using Inr r(1) by (simp add: S A)
  qed
qed

section \<open>What a parse step can throw\<close>

lemma candidate_raises: "candidate d = Inl e \<Longrightarrow> \<exists>m. e = TypeError m"
  by (cases d) (auto simp: candidate_def split: if_splits sum.splits)

lemma get_prop_raises: "get_prop d k = Inl e \<Longrightarrow> \<exists>m. e = TypeError m"
  by (cases d) auto

lemma constructor_name_raises: "constructor_name d = Inl e \<Longrightarrow> \<exists>m. e = TypeError m"
  by (cases d) (auto split: option.splits dest: get_prop_raises)

lemma getUnkownType_raises: "getUnkownType d = Inl e \<Longrightarrow> \<exists>m. e = TypeError m"
  by (auto simp: getUnkownType_def split: if_splits dest: constructor_name_raises)

lemma has_ref_and_id_raises: "has_ref_and_id d = Inl e \<Longrightarrow> \<exists>m. e = TypeError m"
  by (cases d) (auto simp: has_ref_and_id_def split: if_splits sum.splits)

lemma JamfObjectId_parse_raises:
  assumes "fst (JamfObjectId_parse v i w) = Inl e"
  shows "\<exists>m. e = TypeError m"
proof (cases "instanceof_ObjectId (data i)")
  case True
  then obtain x where "data i = JObjectId x" by (cases "data i") simp_all
  then show ?thesis using assms by (simp add: JamfObjectId_parse_native)
next
  case False
  show ?thesis
    using assms candidate_raises [of "data i" e] getUnkownType_raises [of "data i" e]
    by (auto simp: JamfObjectId_parse_other [OF False] split: sum.splits option.splits)
qed

lemma JamfDBRef_parse_sync_raises:
  assumes na: "\<not> async (heap w (common (parent input)))"
    and r: "fst (JamfDBRef_parse v input w) = Inl e"
  shows "\<exists>m. e = TypeError m"
proof (cases "instanceof_DBRef (data input)")
  case True
  then show ?thesis using r by (simp add: JamfDBRef_parse_native)
next
  case False
  note unf = JamfDBRef_parse_other [OF False]
  show ?thesis
  proof (cases "has_ref_and_id (data input)")
    case (Inl e')
    then show ?thesis using r has_ref_and_id_raises [of "data input" e'] by (simp add: unf)
  next
    case (Inr b)
    show ?thesis
    proof (cases b)
      case False
      then show ?thesis
        using r Inr getUnkownType_raises [of "data input" e]
        by (auto simp: unf split: sum.splits)
    next
      case True
      show ?thesis
      proof (cases "get_prop (data input) ''$id''")
        case (Inl e')
        then show ?thesis
          using r Inr True get_prop_raises [of "data input" "''$id''" e'] by (simp add: unf)
      next
        case (Inr idv)
        define ctx where "ctx = snd (processInputParams (errorMap (dbref_def v)) input)"
        define X where "X = nested_input (One (Key ''$id'')) input idv"
        define S where "S = JamfObjectId_parse (objectIDSchema v) X
                              (record_call (Call_parseSync X) w)"
        have n: "fst (case fst S of Inl e \<Rightarrow> (Inl e, snd S)
                   | Inr (Sync r) \<Rightarrow> JamfDBRef_logic input ctx r (snd S)
                   | Inr (Async p) \<Rightarrow> (Inl sync_error, snd S)) = Inl e"
          unfolding ctx_def S_def X_def
          using r \<open>has_ref_and_id (data input) = Inr b\<close> True Inr
          by (simp add: unf nested_sync_unfold [OF na])
        show ?thesis
        proof (cases "fst S")
          case (Inl e')
          then show ?thesis
            using n JamfObjectId_parse_raises [of "objectIDSchema v" X
                "record_call (Call_parseSync X) w" e']
            by (simp add: S_def)
        next
          case (Inr m)
          then obtain r' where m: "m = Sync r'"
            using JamfObjectId_parse_not_async [of "objectIDSchema v" X
                "record_call (Call_parseSync X) w"]
            by (cases m) (auto simp: S_def)
          obtain r'' where "fst (JamfDBRef_logic input ctx r' (snd S)) = Inr (Sync r'')"
            using JamfDBRef_logic_sync by blast
          then show ?thesis using n Inr m by simp
        qed
      qed
    qed
  qed
qed

lemma JamfDBRef_parse_sync_not_async:
  assumes na: "\<not> async (heap w (common (parent input)))"
  shows "fst (JamfDBRef_parse v input w) \<noteq> Inr (Async p)"
proof (cases "instanceof_DBRef (data input)")
  case True
  then show ?thesis by (simp add: JamfDBRef_parse_native)
next
  case False
  note unf = JamfDBRef_parse_other [OF False]
  show ?thesis
  proof (cases "has_ref_and_id (data input)")
    case (Inl e')
    then show ?thesis by (simp add: unf)
  next
    case (Inr b)
    show ?thesis
    proof (cases b)
      case False
      then show ?thesis using Inr by (simp add: unf split: sum.splits)
    next
      case True
      show ?thesis
      proof (cases "get_prop (data input) ''$id''")
        case (Inl e')
        then show ?thesis using Inr True by (simp add: unf)
      next
        case (Inr idv)
        define ctx where "ctx = snd (processInputParams (errorMap (dbref_def v)) input)"
        define X where "X = nested_input (One (Key ''$id'')) input idv"
        define S where "S = JamfObjectId_parse (objectIDSchema v) X
                              (record_call (Call_parseSync X) w)"
        have n: "JamfDBRef_parse v input w = (case fst S of Inl e \<Rightarrow> (Inl e, snd S)
                   | Inr (Sync r) \<Rightarrow> JamfDBRef_logic input ctx r (snd S)
                   | Inr (Async p) \<Rightarrow> (Inl sync_error, snd S))"
          unfolding ctx_def S_def X_def
          using \<open>has_ref_and_id (data input) = Inr b\<close> True Inr
          by (simp add: unf nested_sync_unfold [OF na])
        show ?thesis
        proof (cases "fst S")
          case (Inl e')
          then show ?thesis by (simp add: n)
        next
          case (Inr m)
          then obtain r' where m: "m = Sync r'"
            using JamfObjectId_parse_not_async [of "objectIDSchema v" X
                "record_call (Call_parseSync X) w"]
            by (cases m) (auto simp: S_def)
          obtain r'' where "fst (JamfDBRef_logic input ctx r' (snd S)) = Inr (Sync r'')"
            using JamfDBRef_logic_sync by blast
          then show ?thesis using Inr m by (simp add: n)
        qed
      qed
    qed
  qed
qed

lemma sync_error_needs_async:
  assumes "fst (safeParse this d params w) = Inl sync_error"
  shows "opt_async params = Some True \<and> (\<exists>v. this = DBRef_schema v)"
proof -
  define ctx where "ctx = fst (safeParse_ctx this d params w)"
  define input where "input = \<lparr>data = d, path = ctx_path ctx, parent = ctx\<rparr>"
  define ws where "ws = snd (safeParse_ctx this d params w)"
  define W where "W = record_call (Call_parseSync input) ws"
  define R1 where "R1 = parseSync (parse this) input ws"
  have S: "safeParse this d params w =
      (case fst R1 of Inl e \<Rightarrow> (Inl e, snd R1)
       | Inr result \<Rightarrow> (handleResult ctx result (snd R1), snd R1))"
    unfolding R1_def input_def ctx_def ws_def by (rule safeParse_unfold)
  have hr: "\<And>r w'. handleResult ctx r w' \<noteq> Inl sync_error"
    by (simp add: handleResult_def sync_error_def split: SyncParseReturnType.splits)
  have R: "fst R1 = Inl sync_error"
    using assms hr by (auto simp: S split: sum.splits)
  have flag: "async (heap W (common (parent input))) = (opt_async params = Some True)"
    by (auto simp: W_def record_call_def input_def ctx_def ws_def safeParse_ctx_def Let_def
        opt_async_def split: option.splits)
  have PS: "R1 = (case fst (parse this input W) of
        Inl e \<Rightarrow> (Inl e, snd (parse this input W))
      | Inr (Sync r) \<Rightarrow> (Inr r, snd (parse this input W))
      | Inr (Async p) \<Rightarrow> (Inl sync_error, snd (parse this input W)))"
    unfolding R1_def W_def by (rule parseSync_unfold)
  show ?thesis
  proof (cases this)
    case (ObjectId_schema v)
    have "fst R1 \<noteq> Inl sync_error"
      using JamfObjectId_parse_raises [of v input W] JamfObjectId_parse_not_async [of v input W]
      by (auto simp: PS ObjectId_schema sync_error_def split: sum.splits ParseReturnType.splits)
    then show ?thesis using R by simp
  next
    case (DBRef_schema v)
    show ?thesis
    proof (cases "opt_async params = Some True")
      case True
      then show ?thesis using DBRef_schema by simp
    next
      case False
      then have na: "\<not> async (heap W (common (parent input)))" using flag by simp
      have "fst R1 \<noteq> Inl sync_error"
        using JamfDBRef_parse_sync_raises [OF na, of v] JamfDBRef_parse_sync_not_async [OF na, of v]
        by (auto simp: PS DBRef_schema sync_error_def split: sum.splits ParseReturnType.splits)
      then show ?thesis using R by simp
    qed
  qed
qed

section \<open>A malformed identifier inside a reference\<close>

lemma JamfObjectId_parse_malformed:
  assumes "data input = JStr s" and "\<not> checkForHex s"
  shows "JamfObjectId_parse this input w =
     (Inr (Sync INVALID),
      addIssueToContext (snd (processInputParams (errorMap (objectid_def this)) input))
        \<lparr>code = custom, expected = None, received = None,
         message = Some (caught_message hex_error)\<rparr>
        (record_call (Call_new_ObjectId (JStr s)) w))"
  using assms
  by (simp add: JamfObjectId_parse_other candidate_def ObjectId_new_string
      ObjectId_of_string_def)

lemma not_hex_bad: "\<not> checkForHex ''bad''"
  by (simp add: checkForHex_def)

lemma users_bad_shape:
  "\<not> instanceof_DBRef users_bad" "has_ref_and_id users_bad = Inr True"
  "get_prop users_bad ''$id'' = Inr (JStr ''bad'')"
  by (simp_all add: users_bad_def has_ref_and_id_def)

lemma addIssue_malformed:
  "issues (heap (addIssueToContext (ParseContext a p em par d pt)
        \<lparr>code = custom, expected = None, received = None,
         message = Some (caught_message hex_error)\<rparr> w) a)
     = issues (heap w a) @ [malformed_issue p]"
  by (simp add: addIssueToContext_def Let_def makeIssue_def malformed_issue_def
      caught_message_def hex_error_def)

lemma calls_addIssue [simp]: "calls (addIssueToContext ctx i w) = calls w"
  by (simp add: addIssueToContext_def Let_def)

lemma calls_record_call [simp]: "calls (record_call c w) = calls w @ [c]"
  by (simp add: record_call_def)

lemma heap_record_call [simp]: "heap (record_call c w) = heap w"
  by (simp add: record_call_def)

lemma next_addr_record_call [simp]: "next_addr (record_call c w) = next_addr w"
  by (simp add: record_call_def)

lemma next_addr_addIssue [simp]: "next_addr (addIssueToContext ctx i w) = next_addr w"
  by (simp add: addIssueToContext_def Let_def)

lemma dbref_bad_sync:
  assumes "opt_async params \<noteq> Some True"
  shows "outcome (safeParse (DBRef_schema (JamfDBRef_new dd)) users_bad params w)
           = Inr (False, None, [malformed_issue (opt_path params @ [Key ''$id''])])
       \<and> new_calls w (snd (safeParse (DBRef_schema (JamfDBRef_new dd)) users_bad params w))
           = [Call_parseSync \<lparr>data = users_bad, path = opt_path params,
                parent = fst (safeParse_ctx (DBRef_schema (JamfDBRef_new dd)) users_bad params w)\<rparr>,
              Call_parseSync \<lparr>data = JStr ''bad'', path = opt_path params @ [Key ''$id''],
                parent = fst (safeParse_ctx (DBRef_schema (JamfDBRef_new dd)) users_bad params w)\<rparr>,
              Call_new_ObjectId (JStr ''bad'')]"
proof -
  define ctx where "ctx = fst (safeParse_ctx (DBRef_schema (JamfDBRef_new dd)) users_bad params w)"
  define ws where "ws = snd (safeParse_ctx (DBRef_schema (JamfDBRef_new dd)) users_bad params w)"
  define input where "input = \<lparr>data = users_bad, path = ctx_path ctx, parent = ctx\<rparr>"
  define X where "X = nested_input (One (Key ''$id'')) input (JStr ''bad'')"
  define W where "W = record_call (Call_parseSync input) ws"
  have ctx: "ctx = ParseContext (next_addr w) (opt_path params) (errorMap dd) None users_bad
                     (getParsedType users_bad)"
    by (simp add: ctx_def safeParse_ctx_def Let_def opt_path_def JamfDBRef_new_def)
  have na: "\<not> async (heap W (common (parent input)))"
    using assms
    by (auto simp: W_def input_def ctx ws_def safeParse_ctx_def Let_def opt_async_def
        split: option.splits)
  have iss: "issues (heap W (next_addr w)) = []" "calls W = calls w @ [Call_parseSync input]"
    by (simp_all add: W_def ws_def safeParse_ctx_def Let_def)
  have dX: "data X = JStr ''bad''" by (simp add: X_def nested_input_def)
  define W2 where "W2 = addIssueToContext
        (snd (processInputParams (errorMap (objectid_def (objectIDSchema (JamfDBRef_new dd)))) X))
        \<lparr>code = custom, expected = None, received = None,
         message = Some (caught_message hex_error)\<rparr>
        (record_call (Call_new_ObjectId (JStr ''bad'')) (record_call (Call_parseSync X) W))"
  have P: "JamfDBRef_parse (JamfDBRef_new dd) input W = (Inr (Sync INVALID), W2)"
    unfolding W2_def
    using users_bad_shape
    by (simp add: JamfDBRef_parse_other input_def nested_sync_unfold [OF na, unfolded input_def]
        JamfObjectId_parse_malformed [OF dX not_hex_bad, unfolded X_def input_def]
        X_def JamfDBRef_logic_def)
  have R: "parseSync (parse (DBRef_schema (JamfDBRef_new dd))) input ws = (Inr INVALID, W2)"
    using P by (simp add: parseSync_def W_def)
  have i2: "issues (heap W2 (next_addr w)) = [malformed_issue (opt_path params @ [Key ''$id''])]"
    using iss(1)
    by (simp add: W2_def processInputParams_def X_def nested_input_def input_def ctx
        addIssue_malformed)
  have c2: "calls W2 = calls w @ [Call_parseSync input, Call_parseSync X,
                                  Call_new_ObjectId (JStr ''bad'')]"
    by (simp add: W2_def iss(2))
  have S: "safeParse (DBRef_schema (JamfDBRef_new dd)) users_bad params w
      = (handleResult ctx INVALID W2, W2)"
    using R unfolding ctx_def ws_def input_def by (simp add: safeParse_unfold)
  have H: "handleResult ctx INVALID W2 = Inr (SafeParseError ctx None)"
    using i2 by (simp add: handleResult_def ctx)
  show ?thesis
    using i2 c2
    by (simp add: S H outcome_def get_error_def Let_def new_calls_def ctx_def [symmetric]
        input_def X_def nested_input_def, simp add: ctx)
qed

lemma dbref_delegate_async:
  assumes "\<not> instanceof_DBRef (data input)" and "has_ref_and_id (data input) = Inr True"
    and "get_prop (data input) ''$id'' = Inr idv"
    and "async (heap w (common (parent input)))"
    and "JamfObjectId_parse (objectIDSchema v) (nested_input (One (Key ''$id'')) input idv)
           (record_call (Call_parseAsync (nested_input (One (Key ''$id'')) input idv)) w)
         = (Inr (Sync r), w')"
  shows "JamfDBRef_parse v input w =
     (Inr (Async (then_promise (Promise_resolve (Sync r))
        (JamfDBRef_logic input (snd (processInputParams (errorMap (dbref_def v)) input))))), w')"
  using assms
  by (simp add: JamfDBRef_parse_other nested_async_unfold del: Promise_resolve.simps)

lemma settle_then_logic:
  assumes "logic r w = (Inr (Sync r'), w')"
  shows "settle (then_promise (Promise_resolve (Sync r)) logic) w = (Inr r', w')"
  using assms by (simp add: settle_then_sync del: Promise_resolve.simps)

lemma dbref_bad_async:
  "outcome (safeParseAsync (DBRef_schema (JamfDBRef_new dd)) users_bad params w)
           = Inr (False, None, [malformed_issue (opt_path params @ [Key ''$id''])])
       \<and> new_calls w (snd (safeParseAsync (DBRef_schema (JamfDBRef_new dd)) users_bad params w))
           = [Call_parseAsync \<lparr>data = JStr ''bad'', path = opt_path params @ [Key ''$id''],
                parent = fst (safeParseAsync_ctx (DBRef_schema (JamfDBRef_new dd)) users_bad params w)\<rparr>,
              Call_new_ObjectId (JStr ''bad'')]"
proof -
  define ctx where "ctx = fst (safeParseAsync_ctx (DBRef_schema (JamfDBRef_new dd)) users_bad params w)"
  define W where "W = snd (safeParseAsync_ctx (DBRef_schema (JamfDBRef_new dd)) users_bad params w)"
  define input where "input = \<lparr>data = users_bad, path = ctx_path ctx, parent = ctx\<rparr>"
  define X where "X = nested_input (One (Key ''$id'')) input (JStr ''bad'')"
  have ctx: "ctx = ParseContext (next_addr w) (opt_path params) (errorMap dd) None users_bad
                     (getParsedType users_bad)"
    by (simp add: ctx_def safeParseAsync_ctx_def Let_def opt_path_def JamfDBRef_new_def)
  have a: "async (heap W (common (parent input)))"
    by (simp add: W_def input_def ctx safeParseAsync_ctx_def Let_def)
  have iss: "issues (heap W (next_addr w)) = []" "calls W = calls w"
    by (simp_all add: W_def safeParseAsync_ctx_def Let_def)
  have dX: "data X = JStr ''bad''" by (simp add: X_def nested_input_def)
  define W2 where "W2 = addIssueToContext
        (snd (processInputParams (errorMap (objectid_def (objectIDSchema (JamfDBRef_new dd)))) X))
        \<lparr>code = custom, expected = None, received = None,
         message = Some (caught_message hex_error)\<rparr>
        (record_call (Call_new_ObjectId (JStr ''bad'')) (record_call (Call_parseAsync X) W))"
  define L where "L = JamfDBRef_logic input
        (snd (processInputParams (errorMap (dbref_def (JamfDBRef_new dd))) input))"
  have sub: "JamfObjectId_parse (objectIDSchema (JamfDBRef_new dd)) X
       (record_call (Call_parseAsync X) W) = (Inr (Sync INVALID), W2)"
    unfolding W2_def by (rule JamfObjectId_parse_malformed [OF dX not_hex_bad])
  have P: "JamfDBRef_parse (JamfDBRef_new dd) input W
      = (Inr (Async (then_promise (Promise_resolve (Sync INVALID)) L)), W2)"
    unfolding L_def
    by (rule dbref_delegate_async [where idv = "JStr ''bad''"])
       (simp_all add: input_def users_bad_shape a [unfolded input_def, simplified]
          sub [unfolded X_def input_def])
  have Lr: "L INVALID W2 = (Inr (Sync INVALID), W2)"
    by (simp add: L_def JamfDBRef_logic_def)
  have R: "await_parse (parse (DBRef_schema (JamfDBRef_new dd)) input) W = (Inr INVALID, W2)"
    using P settle_then_logic [of L INVALID W2 INVALID W2, OF Lr]
    by (simp add: await_parse_unfold del: Promise_resolve.simps)
  have i2: "issues (heap W2 (next_addr w)) = [malformed_issue (opt_path params @ [Key ''$id''])]"
    using iss(1)
    by (simp add: W2_def processInputParams_def X_def nested_input_def input_def ctx
        addIssue_malformed)
  have c2: "calls W2 = calls w @ [Call_parseAsync X, Call_new_ObjectId (JStr ''bad'')]"
    by (simp add: W2_def iss(2))
  have S: "safeParseAsync (DBRef_schema (JamfDBRef_new dd)) users_bad params w
      = (handleResult ctx INVALID W2, W2)"
    using R unfolding ctx_def W_def input_def by (simp add: safeParseAsync_unfold)
  have H: "handleResult ctx INVALID W2 = Inr (SafeParseError ctx None)"
    using i2 by (simp add: handleResult_def ctx)
  show ?thesis
    using i2 c2
    by (simp add: S H outcome_def get_error_def Let_def new_calls_def ctx_def [symmetric]
        input_def X_def nested_input_def, simp add: ctx)
qed

section \<open>The factory of the composite reference validator\<close>

text \<open>
  Claim C3. \<open>JamfDBRef.create\<close>, exported as \<open>dbref\<close>, constructs what
  \<open>JamfObjectId.create\<close> constructs: an instance of the identifier validator whose
  definition record has the type name \<open>ObjectID\<close>. It is not an instance of the composite
  reference validator, and its parse step is the identifier validator's.
\<close>

theorem dbref_create_constructs_objectid:
  "JamfDBRef_create = JamfObjectId_create \<and> dbref = objectid
   \<and> typeName (objectid_def dbref) = ObjectID
   \<and> (\<forall>v. ObjectId_schema dbref \<noteq> DBRef_schema v)
   \<and> parse (ObjectId_schema dbref) = JamfObjectId_parse objectid"
  by (simp add: JamfDBRef_create_def JamfObjectId_create_def dbref_def objectid_def)

section \<open>The context built by the synchronous entry point\<close>

text \<open>
  Claim C4, as stated: the context of \<open>safeParse\<close> never has the async flag set. It fails
  when the caller passes \<open>async: true\<close>: the object literal reads
  \<open>params?.async ?? false\<close>.
\<close>

theorem safeParse_ctx_async_true:
  "ctx_async (fst (safeParse_ctx objectid_validator JNull params_async_true world0))
     (snd (safeParse_ctx objectid_validator JNull params_async_true world0)) = True"
  by (simp add: ctx_async_def safeParse_ctx_def params_async_true_def world0_def Let_def)

text \<open>
  Claim C4, amended. The fresh context of \<open>safeParse\<close> has the async flag the caller
  supplied, and false when none was supplied; its issue sequence is empty and its
  \<open>common\<close> object is newly allocated. The context of \<open>safeParseAsync\<close> has the flag
  set whatever the caller supplied.
\<close>

theorem safeParse_ctx_async_from_params:
  "ctx_async (fst (safeParse_ctx this d params w)) (snd (safeParse_ctx this d params w))
     = (opt_async params = Some True)
   \<and> ctx_issues (fst (safeParse_ctx this d params w)) (snd (safeParse_ctx this d params w)) = []
   \<and> common (fst (safeParse_ctx this d params w)) = next_addr w
   \<and> ctx_async (fst (safeParseAsync_ctx this d params w))
        (snd (safeParseAsync_ctx this d params w)) = True"
  by (auto simp add: ctx_async_def ctx_issues_def safeParse_ctx_def safeParseAsync_ctx_def
      opt_async_def Let_def split: option.splits)

section \<open>Result resolution\<close>

text \<open>
  Claim C5. \<open>handleResult\<close> returns a valid result as a success carrying its value. A result
  that is not valid, in a context with no recorded issue, throws. A result that is not
  valid, in a context with at least one issue, gives a failure object with nothing
  memoised; the first read of its \<open>error\<close> constructs the aggregate from the whole issue
  sequence and stores it, and every later read, in whatever world, returns that same
  instance and constructs nothing.
\<close>

theorem handleResult_resolution:
  "(isValid r \<longrightarrow> (\<exists>v. r = OK v \<and> handleResult ctx r w = Inr (SafeParseSuccess v)))
   \<and> (\<not> isValid r \<and> ctx_issues ctx w = [] \<longrightarrow>
        handleResult ctx r w = Inl (JsError ''Validation failed but no issues detected.''))
   \<and> (\<not> isValid r \<and> ctx_issues ctx w \<noteq> [] \<longrightarrow>
        (\<exists>f e f' w1. handleResult ctx r w = Inr f \<and> error_memo f = None
           \<and> get_error f w = ((Some e, f'), w1)
           \<and> error_issues e = ctx_issues ctx w
           \<and> error_memo f' = Some e
           \<and> (\<forall>w2. get_error f' w2 = ((Some e, f'), w2))))"
  by (cases r) (auto simp: handleResult_def get_error_def ctx_issues_def Let_def)

lemma ctx_issues_world0: "ctx_issues ctx0 world0 = []"
  by (simp add: ctx_issues_def world0_def empty_common_def)

lemma ctx_issues_world1: "ctx_issues ctx0 world1 \<noteq> []"
  by (simp add: ctx_issues_def world1_def addIssueToContext_def Let_def)

theorem handleResult_resolution_witness:
  "isValid (OK JNull) \<and> handleResult ctx0 (OK JNull) world0 = Inr (SafeParseSuccess JNull)
   \<and> \<not> isValid INVALID \<and> ctx_issues ctx0 world0 = []
   \<and> handleResult ctx0 INVALID world0 = Inl (JsError ''Validation failed but no issues detected.'')
   \<and> ctx_issues ctx0 world1 \<noteq> []
   \<and> (\<exists>f e f' w1. handleResult ctx0 INVALID world1 = Inr f \<and> error_memo f = None
           \<and> get_error f world1 = ((Some e, f'), w1)
           \<and> error_issues e = ctx_issues ctx0 world1
           \<and> error_memo f' = Some e
           \<and> (\<forall>w2. get_error f' w2 = ((Some e, f'), w2)))"
  using handleResult_resolution [of "OK JNull" ctx0 world0]
    handleResult_resolution [of INVALID ctx0 world0]
    handleResult_resolution [of INVALID ctx0 world1]
    ctx_issues_world0 ctx_issues_world1
  by simp

section \<open>A well-formed reference under \<open>async: true\<close>\<close>

lemma users_ok_shape:
  "\<not> instanceof_DBRef users_ok" "has_ref_and_id users_ok = Inr True"
  "get_prop users_ok ''$id'' = Inr (JStr lower_hex)"
  by (simp_all add: users_ok_def has_ref_and_id_def lower_hex_def)

lemma logic_users_ok:
  "JamfDBRef_logic \<lparr>data = users_ok, path = p, parent = pc\<rparr> ctx (OK v) w
     = (Inr (Sync (OK (JDBRef ''users'' v JUndefined))),
        record_call (Call_new_DBRef (JStr ''users'') v JUndefined) w)"
  by (simp add: JamfDBRef_logic_def try_new_DBRef_def DBRef_new_def DBRef_construct_def
      users_ok_def)

lemma dbref_ok_async_true:
  "fst (safeParse dbref_validator users_ok params_async_true world0) = Inl sync_error
   \<and> fst (safeParseAsync dbref_validator users_ok params_async_true world0)
       = Inr (SafeParseSuccess (JDBRef ''users'' (JStr lower_hex) JUndefined))"
proof -
  define v where "v = JamfDBRef_new plain_def"
  define ctx where "ctx = ParseContext 0 [] None None users_ok PT_object"
  define input where "input = \<lparr>data = users_ok, path = [], parent = ctx\<rparr>"
  define X where "X = nested_input (One (Key ''$id'')) input (JStr lower_hex)"
  define L where "L = JamfDBRef_logic input
        (snd (processInputParams (errorMap (dbref_def v)) input))"
  have dX: "data X = JStr lower_hex" by (simp add: X_def nested_input_def)
  have cs: "fst (safeParse_ctx dbref_validator users_ok params_async_true world0) = ctx"
    by (simp add: safeParse_ctx_def Let_def ctx_def dbref_validator_def plain_def_def
        JamfDBRef_new_def params_async_true_def world0_def users_ok_def)
  have ca: "fst (safeParseAsync_ctx dbref_validator users_ok params_async_true world0) = ctx"
    by (simp add: safeParseAsync_ctx_def Let_def ctx_def dbref_validator_def plain_def_def
        JamfDBRef_new_def params_async_true_def world0_def users_ok_def)
  define ws where "ws = snd (safeParse_ctx dbref_validator users_ok params_async_true world0)"
  define wa where "wa = snd (safeParseAsync_ctx dbref_validator users_ok params_async_true world0)"
  have fs: "async (heap (record_call c ws) (common (parent input)))" for c
    by (simp add: ws_def safeParse_ctx_def Let_def input_def ctx_def params_async_true_def
        world0_def)
  have fa: "async (heap wa (common (parent input)))"
    by (simp add: wa_def safeParseAsync_ctx_def Let_def input_def ctx_def world0_def)
  have sub: "JamfObjectId_parse (objectIDSchema v) X w =
      (Inr (Sync (OK (JStr lower_hex))), record_call (Call_new_ObjectId (JStr lower_hex)) w)"
    if "\<not> ctx_parseToBSON ctx w" for w
    using that
    by (simp add: JamfObjectId_parse_string [where s = lower_hex, OF _ checkForHex_lower_hex]
        toLowerHex_lower_hex
        ctx_parseToBSON_def processInputParams_def X_def nested_input_def input_def)
  have nb_s: "\<not> ctx_parseToBSON ctx (record_call c (record_call c' ws))" for c c'
    by (simp add: ws_def safeParse_ctx_def Let_def ctx_def params_async_true_def
        ctx_parseToBSON_def world0_def)
  have nb_a: "\<not> ctx_parseToBSON ctx (record_call c wa)" for c
    by (simp add: wa_def safeParseAsync_ctx_def Let_def ctx_def params_async_true_def
        ctx_parseToBSON_def world0_def)
  have Ps: "JamfDBRef_parse v input (record_call (Call_parseSync input) ws)
      = (Inr (Async (then_promise (Promise_resolve (Sync (OK (JStr lower_hex)))) L)),
         record_call (Call_new_ObjectId (JStr lower_hex))
           (record_call (Call_parseAsync X) (record_call (Call_parseSync input) ws)))"
    unfolding L_def
    by (rule dbref_delegate_async [where idv = "JStr lower_hex"])
       (simp_all add: X_def input_def users_ok_shape fs [unfolded input_def, simplified]
          sub [OF nb_s, unfolded X_def input_def])
  have Pa: "JamfDBRef_parse v input wa
      = (Inr (Async (then_promise (Promise_resolve (Sync (OK (JStr lower_hex)))) L)),
         record_call (Call_new_ObjectId (JStr lower_hex)) (record_call (Call_parseAsync X) wa))"
    unfolding L_def
    by (rule dbref_delegate_async [where idv = "JStr lower_hex"])
       (simp_all add: X_def input_def users_ok_shape fa [unfolded input_def, simplified]
          sub [OF nb_a, unfolded X_def input_def])
  have Rs: "fst (parseSync (parse dbref_validator) input ws) = Inl sync_error"
    using Ps by (simp add: parseSync_unfold dbref_validator_def v_def del: Promise_resolve.simps)
  have Lr: "L (OK (JStr lower_hex)) w = (Inr (Sync (OK (JDBRef ''users'' (JStr lower_hex) JUndefined))),
        record_call (Call_new_DBRef (JStr ''users'') (JStr lower_hex) JUndefined) w)" for w
    by (simp add: L_def input_def logic_users_ok)
  have Ra: "fst (await_parse (parse dbref_validator input) wa)
      = Inr (OK (JDBRef ''users'' (JStr lower_hex) JUndefined))"
    using Pa settle_then_logic [of L "OK (JStr lower_hex)" _ _ _, OF Lr]
    by (simp add: await_parse_unfold dbref_validator_def v_def del: Promise_resolve.simps)
  have S: "fst (safeParse dbref_validator users_ok params_async_true world0) = Inl sync_error"
    using Rs unfolding ws_def input_def
    by (simp add: safeParse_unfold [of dbref_validator users_ok params_async_true world0] cs
        ctx_def)
  have A: "fst (safeParseAsync dbref_validator users_ok params_async_true world0)
       = Inr (SafeParseSuccess (JDBRef ''users'' (JStr lower_hex) JUndefined))"
    using Ra unfolding wa_def input_def
    by (simp add: safeParseAsync_unfold [of dbref_validator users_ok params_async_true world0] ca
        ctx_def handleResult_def)
  show ?thesis using S A by simp
qed

section \<open>Inputs on which a parse step throws\<close>

text \<open>
  \<open>getUnkownType\<close> throws exactly on an object without a constructor: a prototype-less
  object with no own \<open>constructor\<close>, or an object whose own \<open>constructor\<close> is
  undefined or null. A parse step throws only on null (the composite validator), or where
  \<open>getUnkownType\<close> throws on the data or on the \<open>$id\<close> of a reference.
\<close>

lemma getUnkownType_raises_iff:
  "(\<exists>e. getUnkownType d = Inl e) =
     (\<exists>c fs. d = JObject c fs \<and>
        (map_of fs ''constructor'' = None \<and> c = None
         \<or> map_of fs ''constructor'' = Some JUndefined
         \<or> map_of fs ''constructor'' = Some JNull))"
proof (cases d)
  case (JObject c fs)
  show ?thesis
  proof (cases "map_of fs ''constructor''")
    case None
    then show ?thesis using JObject by (cases c) (simp_all add: getUnkownType_def)
  next
    case (Some v)
    then show ?thesis using JObject by (cases v) (simp_all add: getUnkownType_def)
  qed
qed (simp_all add: getUnkownType_def)

lemma candidate_total: "\<exists>c. candidate d = Inr c"
  by (cases d) (auto simp: candidate_def)

lemma JamfObjectId_parse_raises_only:
  assumes "fst (JamfObjectId_parse v i w) = Inl e"
  shows "getUnkownType (data i) = Inl e"
proof (cases "instanceof_ObjectId (data i)")
  case True
  then obtain x where "data i = JObjectId x" by (cases "data i") simp_all
  then show ?thesis using assms by (simp add: JamfObjectId_parse_native)
next
  case False
  obtain c where c: "candidate (data i) = Inr c" using candidate_total by blast
  show ?thesis
    using assms c
    by (auto simp: JamfObjectId_parse_other [OF False] split: sum.splits option.splits)
qed

lemma has_ref_and_id_raises_null: "has_ref_and_id d = Inl e \<Longrightarrow> d = JNull"
  by (cases d) (auto simp: has_ref_and_id_def split: if_splits sum.splits)

lemma has_ref_and_id_get_id: "has_ref_and_id d = Inr True \<Longrightarrow> \<exists>i. get_prop d ''$id'' = Inr i"
  by (cases d) (auto simp: has_ref_and_id_def split: if_splits sum.splits)

lemma JamfDBRef_parse_raises_only:
  assumes na: "\<not> async (heap w (common (parent input)))"
    and r: "fst (JamfDBRef_parse v input w) = Inl e"
  shows "data input = JNull \<or> getUnkownType (data input) = Inl e
     \<or> (\<exists>idv. get_prop (data input) ''$id'' = Inr idv \<and> getUnkownType idv = Inl e)"
proof (cases "instanceof_DBRef (data input)")
  case True
  then show ?thesis using r by (simp add: JamfDBRef_parse_native)
next
  case False
  note unf = JamfDBRef_parse_other [OF False]
  show ?thesis
  proof (cases "has_ref_and_id (data input)")
    case (Inl e')
    then show ?thesis using has_ref_and_id_raises_null by blast
  next
    case (Inr b)
    show ?thesis
    proof (cases b)
      case False
      then show ?thesis
        using r Inr
        by (auto simp: unf split: sum.splits)
    next
      case True
      then obtain idv where idv: "get_prop (data input) ''$id'' = Inr idv"
        using Inr has_ref_and_id_get_id [of "data input"] by auto
      define ctx where "ctx = snd (processInputParams (errorMap (dbref_def v)) input)"
      define X where "X = nested_input (One (Key ''$id'')) input idv"
      define S where "S = JamfObjectId_parse (objectIDSchema v) X
                            (record_call (Call_parseSync X) w)"
      have dX: "data X = idv" by (simp add: X_def nested_input_def)
      have n: "fst (case fst S of Inl e \<Rightarrow> (Inl e, snd S)
                 | Inr (Sync r) \<Rightarrow> JamfDBRef_logic input ctx r (snd S)
                 | Inr (Async p) \<Rightarrow> (Inl sync_error, snd S)) = Inl e"
        unfolding ctx_def S_def X_def
        using r Inr True idv
        by (simp add: unf nested_sync_unfold [OF na])
      show ?thesis
      proof (cases "fst S")
        case (Inl e')
        then have "getUnkownType (data X) = Inl e'"
          using JamfObjectId_parse_raises_only [of "objectIDSchema v" X
              "record_call (Call_parseSync X) w" e']
          by (simp add: S_def)
        then show ?thesis using idv dX n Inl by auto
      next
        case (Inr m)
        then obtain r' where m: "m = Sync r'"
          using JamfObjectId_parse_not_async [of "objectIDSchema v" X
              "record_call (Call_parseSync X) w"]
          by (cases m) (auto simp: S_def)
        obtain r'' where "fst (JamfDBRef_logic input ctx r' (snd S)) = Inr (Sync r'')"
          using JamfDBRef_logic_sync by blast
        then show ?thesis using n Inr m by simp
      qed
    qed
  qed
qed

lemma dbref_null_general:
  "fst (JamfDBRef_parse v \<lparr>data = JNull, path = p, parent = pc\<rparr> w)
      = Inl (TypeError ''Cannot read properties of null (reading $ref)'')
   \<and> fst (safeParse (DBRef_schema v) JNull params w)
      = Inl (TypeError ''Cannot read properties of null (reading $ref)'')
   \<and> fst (safeParseAsync (DBRef_schema v) JNull params w)
      = Inl (TypeError ''Cannot read properties of null (reading $ref)'')"
  by (simp add: JamfDBRef_parse_other has_ref_and_id_def safeParse_unfold safeParseAsync_unfold
      parseSync_unfold await_parse_unfold)

lemma bare_object_general:
  "fst (JamfObjectId_parse v \<lparr>data = JObject None [], path = p, parent = pc\<rparr> w)
      = Inl (TypeError ''Cannot read properties of undefined (reading name)'')
   \<and> fst (safeParse (ObjectId_schema v) (JObject None []) params w)
      = Inl (TypeError ''Cannot read properties of undefined (reading name)'')
   \<and> fst (safeParseAsync (ObjectId_schema v) (JObject None []) params w)
      = Inl (TypeError ''Cannot read properties of undefined (reading name)'')"
  by (simp add: JamfObjectId_parse_other candidate_def getUnkownType_def safeParse_unfold
      safeParseAsync_unfold parseSync_unfold await_parse_unfold)

text \<open>
  Claim C2 says that the parse steps of the two validators never throw. The code at the
  failing input: on \<open>null\<close> the composite reference validator evaluates
  \<open>typeof input.data === "object" && input.data.$ref\<close>, the first conjunct holds and the
  property read throws a TypeError, from the parse step and from both entry points; no
  issue is recorded and no result is returned. On a prototype-less object the identifier
  validator throws as well, in \<open>getUnkownType\<close>, which reads
  \<open>data.constructor.name\<close>.
\<close>

theorem parse_step_raises:
  "fst (JamfDBRef_parse (JamfDBRef_new plain_def) \<lparr>data = JNull, path = [], parent = ctx0\<rparr> world0)
      = Inl (TypeError ''Cannot read properties of null (reading $ref)'')
   \<and> fst (safeParse dbref_validator JNull None world0)
      = Inl (TypeError ''Cannot read properties of null (reading $ref)'')
   \<and> fst (safeParseAsync dbref_validator JNull None world0)
      = Inl (TypeError ''Cannot read properties of null (reading $ref)'')
   \<and> fst (safeParse objectid_validator (JObject None []) None world0)
      = Inl (TypeError ''Cannot read properties of undefined (reading name)'')"
  using dbref_null_general [of "JamfDBRef_new plain_def" "[]" ctx0 world0 None]
    bare_object_general [of objectid "[]" ctx0 world0 None]
  by (simp add: dbref_validator_def objectid_validator_def)

section \<open>Falsy reference fields\<close>

text \<open>
  Where \<open>getUnkownType\<close> returns, an input that is not a native reference and has a
  falsy \<open>$ref\<close> or \<open>$id\<close> gets one \<open>invalid_type\<close> issue, expected
  \<open>DBRef\<close>, at the validator's own path; the validator returns invalid and calls
  neither a sub-validator nor a constructor.
\<close>

lemma dbref_falsy_general:
  assumes g: "getUnkownType d = Inr rcv" and nd: "\<not> instanceof_DBRef d"
    and r: "get_prop d ''$ref'' = Inr r" and i: "get_prop d ''$id'' = Inr i"
    and f: "\<not> truthy r \<or> \<not> truthy i"
  shows "fst (JamfDBRef_parse this \<lparr>data = d, path = p, parent = pc\<rparr> w) = Inr (Sync INVALID)
     \<and> new_calls w (snd (JamfDBRef_parse this \<lparr>data = d, path = p, parent = pc\<rparr> w)) = []
     \<and> (\<exists>msg. ctx_issues pc (snd (JamfDBRef_parse this \<lparr>data = d, path = p, parent = pc\<rparr> w))
           = ctx_issues pc w @
             [\<lparr>issue_code = invalid_type, issue_path = p, issue_message = msg,
               issue_expected = Some ''DBRef'', issue_received = Some rcv\<rparr>])"
proof -
  have h: "has_ref_and_id d = Inr False"
    using r i f by (auto simp: has_ref_and_id_def)
  show ?thesis
    using nd h g
    by (simp add: JamfDBRef_parse_other new_calls_def ctx_issues_def addIssueToContext_def
        Let_def processInputParams_def makeIssue_def)
qed

lemma dbref_falsy_examples:
  "fst (JamfDBRef_parse (JamfDBRef_new plain_def)
          \<lparr>data = empty_ref, path = [], parent = ctx0\<rparr> world0) = Inr (Sync INVALID)
   \<and> fst (JamfDBRef_parse (JamfDBRef_new plain_def)
          \<lparr>data = zero_id, path = [], parent = ctx0\<rparr> world0) = Inr (Sync INVALID)"
  using dbref_falsy_general [of empty_ref "JStr ''Object''" "JStr []" "JStr lower_hex"
      "JamfDBRef_new plain_def" "[]" ctx0 world0]
    dbref_falsy_general [of zero_id "JStr ''Object''" "JStr ''users''" "JNum 0"
      "JamfDBRef_new plain_def" "[]" ctx0 world0]
  by (simp add: empty_ref_def zero_id_def getUnkownType_def)

text \<open>
  Claim C10 says that every object that is not a native reference and has a falsy
  \<open>$ref\<close> or \<open>$id\<close> gets an \<open>invalid_type\<close> issue and an invalid result. The
  code at the failing inputs, a prototype-less object with an empty \<open>$ref\<close> and the
  object \<open>{constructor: null, $ref: ""}\<close>: the branch that adds the issue first computes
  the received-type name, \<open>getUnkownType\<close> reads \<open>data.constructor.name\<close> and
  throws, so the world is left as it was, no issue is appended and nothing is returned.
\<close>

theorem bare_falsy_raises:
  "\<not> instanceof_DBRef bare_empty_ref \<and> js_typeof bare_empty_ref = ''object''
   \<and> get_prop bare_empty_ref ''$ref'' = Inr (JStr [])
   \<and> \<not> truthy (JStr [])
   \<and> JamfDBRef_parse (JamfDBRef_new plain_def) \<lparr>data = bare_empty_ref, path = [], parent = ctx0\<rparr> world0
       = (Inl (TypeError ''Cannot read properties of undefined (reading name)''), world0)
   \<and> ctx_issues ctx0 world0 = []
   \<and> \<not> instanceof_DBRef null_constructor_ref
   \<and> get_prop null_constructor_ref ''$ref'' = Inr (JStr [])
   \<and> JamfDBRef_parse (JamfDBRef_new plain_def)
         \<lparr>data = null_constructor_ref, path = [], parent = ctx0\<rparr> world0
       = (Inl (TypeError ''Cannot read properties of null (reading name)''), world0)"
  by (simp add: bare_empty_ref_def null_constructor_ref_def JamfDBRef_parse_other
      has_ref_and_id_def getUnkownType_def ctx_issues_world0)

section \<open>Identifier round trip\<close>

lemma objectid_hex_string_general:
  assumes "checkForHex s"
  shows "fst (safeParse (ObjectId_schema v) (JStr s) params w) =
           Inr (SafeParseSuccess (if opt_parseToBSON params = Some True then JObjectId (fromHex s)
                                  else JStr (map toLowerHex s)))
       \<and> fst (safeParseAsync (ObjectId_schema v) (JStr s) params w) =
           Inr (SafeParseSuccess (if opt_parseToBSON params = Some True then JObjectId (fromHex s)
                                  else JStr (map toLowerHex s)))
       \<and> toHexString (fromHex s) = map toLowerHex s"
proof -
  have sync: "fst (safeParse (ObjectId_schema v) (JStr s) params w) =
           Inr (SafeParseSuccess (if opt_parseToBSON params = Some True then JObjectId (fromHex s)
                                  else JStr (map toLowerHex s)))"
    using assms
    by (simp add: safeParse_def safeParse_ctx_def parseSync_def Let_def JamfObjectId_parse_string
        ctx_parseToBSON_def processInputParams_def record_call_def handleResult_def
        opt_parseToBSON_def split: option.splits)
  have async: "fst (safeParseAsync (ObjectId_schema v) (JStr s) params w) =
           Inr (SafeParseSuccess (if opt_parseToBSON params = Some True then JObjectId (fromHex s)
                                  else JStr (map toLowerHex s)))"
    using assms
    by (simp add: safeParseAsync_def safeParseAsync_ctx_def Let_def JamfObjectId_parse_string
        ctx_parseToBSON_def processInputParams_def record_call_def handleResult_def
        opt_parseToBSON_def split: option.splits)
  show ?thesis using sync async toHexString_fromHex [OF assms] by simp
qed

text \<open>
  Claim C7, amended. For every string \<open>s\<close> of 24 hex digits, validating \<open>s\<close> with
  the identifier validator succeeds, from either entry point: when \<open>parseToBSON\<close> is
  not true the data is the lower-case form of \<open>s\<close>, which is the canonical hex form of
  the identifier (it is \<open>s\<close> itself when \<open>s\<close> has no upper-case digit); when
  \<open>parseToBSON\<close> is true the data is the native identifier of \<open>s\<close>, whose canonical
  hex form is the lower-case form of \<open>s\<close>.
\<close>

theorem objectid_hex_string:
  assumes "checkForHex s"
  shows "fst (safeParse (ObjectId_schema v) (JStr s) params w) =
           Inr (SafeParseSuccess (if opt_parseToBSON params = Some True then JObjectId (fromHex s)
                                  else JStr (map toLowerHex s)))
       \<and> fst (safeParseAsync (ObjectId_schema v) (JStr s) params w) =
           Inr (SafeParseSuccess (if opt_parseToBSON params = Some True then JObjectId (fromHex s)
                                  else JStr (map toLowerHex s)))
       \<and> toHexString (fromHex s) = map toLowerHex s"
  using assms by (rule objectid_hex_string_general)

theorem objectid_hex_string_witness:
  "checkForHex lower_hex
   \<and> fst (safeParse objectid_validator (JStr lower_hex) (params_toBSON False) world0) =
       Inr (SafeParseSuccess (JStr lower_hex))
   \<and> fst (safeParse objectid_validator (JStr lower_hex) (params_toBSON True) world0) =
       Inr (SafeParseSuccess (JObjectId (fromHex lower_hex)))
   \<and> toHexString (fromHex lower_hex) = lower_hex"
  using objectid_hex_string [OF checkForHex_lower_hex, of objectid "params_toBSON False" world0]
    objectid_hex_string [OF checkForHex_lower_hex, of objectid "params_toBSON True" world0]
    checkForHex_lower_hex toLowerHex_lower_hex
  by (simp add: objectid_validator_def params_toBSON_def opt_parseToBSON_def)

text \<open>
  Claim C7, as stated, promises data equal to \<open>s\<close>, and a native identifier whose
  canonical hex form is \<open>s\<close>. Both fail on a valid encoding with upper-case digits: the
  validator returns \<open>retval.toHexString()\<close>, which is lower-case.
\<close>

theorem upper_hex_not_returned:
  "checkForHex upper_hex
   \<and> fst (safeParse objectid_validator (JStr upper_hex) (params_toBSON False) world0) =
       Inr (SafeParseSuccess (JStr lower_hex))
   \<and> JStr lower_hex \<noteq> JStr upper_hex
   \<and> fst (safeParse objectid_validator (JStr upper_hex) (params_toBSON True) world0) =
       Inr (SafeParseSuccess (JObjectId (fromHex upper_hex)))
   \<and> toHexString (fromHex upper_hex) \<noteq> upper_hex"
  using objectid_hex_string_general [OF checkForHex_upper_hex, of objectid "params_toBSON False" world0]
    objectid_hex_string_general [OF checkForHex_upper_hex, of objectid "params_toBSON True" world0]
    checkForHex_upper_hex toLowerHex_upper_hex
  by (simp add: objectid_validator_def params_toBSON_def opt_parseToBSON_def lower_hex_def
      upper_hex_def)

section \<open>Native identifiers as input\<close>

lemma objectid_native_general:
  "fst (safeParse (ObjectId_schema v) (JObjectId x) params w) = Inr (SafeParseSuccess (JObjectId x))
   \<and> fst (safeParseAsync (ObjectId_schema v) (JObjectId x) params w)
       = Inr (SafeParseSuccess (JObjectId x))"
  by (simp add: safeParse_def safeParse_ctx_def safeParseAsync_def safeParseAsync_ctx_def
      parseSync_def Let_def JamfObjectId_parse_native handleResult_def)

text \<open>
  Claim C8 says that a native identifier validated with \<open>parseToBSON = false\<close> comes
  back as its canonical hex string. The code at the failing input: the branch returns
  \<open>new bson.ObjectId(input.data.toHexString())\<close>, a native identifier equal to the
  input, from both entry points; the string branch of the same validator returns
  \<open>retval.toHexString()\<close> under the same flag.
\<close>

theorem objectid_native_not_hex:
  "fst (safeParse objectid_validator (JObjectId (fromHex lower_hex)) (params_toBSON False) world0)
     = Inr (SafeParseSuccess (JObjectId (fromHex lower_hex)))
   \<and> fst (safeParseAsync objectid_validator (JObjectId (fromHex lower_hex)) (params_toBSON False)
          world0)
     = Inr (SafeParseSuccess (JObjectId (fromHex lower_hex)))
   \<and> toHexString (fromHex lower_hex) = lower_hex
   \<and> SafeParseSuccess (JObjectId (fromHex lower_hex)) \<noteq> SafeParseSuccess (JStr lower_hex)"
  using objectid_native_general [of objectid "fromHex lower_hex" "params_toBSON False" world0]
    toHexString_fromHex [OF checkForHex_lower_hex] toLowerHex_lower_hex
  by (simp add: objectid_validator_def)

section \<open>Equivalence of the entry points\<close>

text \<open>
  Claim C1, amended. For every validator, input, parameter set and starting world, unless
  \<open>safeParse\<close> throws \<open>Synchronous parse encountered promise.\<close>, the two entry points
  have the same outcome: the same thrown error, or results with the same success flag, the
  same data on success and the same issue sequence on failure. \<open>safeParse\<close> throws that
  error only when the caller passes \<open>async: true\<close> and the validator is the composite
  reference validator.
\<close>

theorem entry_points_equivalent:
  "(fst (safeParse this d params w) \<noteq> Inl sync_error \<longrightarrow>
      outcome (safeParse this d params w) = outcome (safeParseAsync this d params w))
   \<and> (fst (safeParse this d params w) = Inl sync_error \<longrightarrow>
      opt_async params = Some True \<and> (\<exists>v. this = DBRef_schema v))"
  using entry_points_agree [of this d params w] sync_error_needs_async [of this d params w]
  by blast

theorem entry_points_equivalent_witness:
  "fst (safeParse objectid_validator (JStr lower_hex) None world0) \<noteq> Inl sync_error
   \<and> outcome (safeParse objectid_validator (JStr lower_hex) None world0)
       = outcome (safeParseAsync objectid_validator (JStr lower_hex) None world0)
   \<and> fst (safeParse dbref_validator users_ok params_async_true world0) = Inl sync_error
   \<and> opt_async params_async_true = Some True
   \<and> (\<exists>v. dbref_validator = DBRef_schema v)"
  using entry_points_equivalent [of objectid_validator "JStr lower_hex" None world0]
    entry_points_equivalent [of dbref_validator users_ok params_async_true world0]
    objectid_hex_string_general [OF checkForHex_lower_hex, of objectid None world0]
    dbref_ok_async_true
  by (simp add: objectid_validator_def)

text \<open>
  Claim C1, as stated, holds for every parameter set. It fails for the composite reference
  validator on a well-formed reference with \<open>async: true\<close>: \<open>safeParse\<close> stores the
  flag in its context, the helper takes the deferred branch, and \<open>_parseSync\<close> throws on
  the promise, while \<open>safeParseAsync\<close> succeeds.
\<close>

theorem entry_points_differ:
  "fst (safeParse dbref_validator users_ok params_async_true world0) = Inl sync_error
   \<and> fst (safeParseAsync dbref_validator users_ok params_async_true world0)
       = Inr (SafeParseSuccess (JDBRef ''users'' (JStr lower_hex) JUndefined))
   \<and> outcome (safeParse dbref_validator users_ok params_async_true world0)
       \<noteq> outcome (safeParseAsync dbref_validator users_ok params_async_true world0)"
  using dbref_ok_async_true by (simp add: outcome_def)

section \<open>The nested composition helper\<close>

text \<open>
  Claim C6. \<open>handleNestedParsing\<close> hands the sub-validator the input whose data is the
  sub-value, whose path is the enclosing path with the segment or segments appended, and
  whose parent is the enclosing context. When that context's \<open>common\<close> object is in
  asynchronous mode it calls the asynchronous step and chains the continuation onto the
  deferred result, which applies the continuation to the sub-result once settled; otherwise
  it calls the synchronous step and applies the continuation at once. The context a
  sub-validator derives from its input has the caller's \<open>common\<close> object, so an issue
  it adds is appended to the caller's issue sequence, at the extended path.
\<close>

theorem handleNestedParsing_delegates:
  "(ctx_async (parent input) w \<longrightarrow>
      handleNestedParsing schema (One s) input d logic w =
        (case parseAsync schema
                \<lparr>data = d, path = path input @ [s], parent = parent input\<rparr> w of
           (Inl e, w') \<Rightarrow> (Inl e, w')
         | (Inr pr, w') \<Rightarrow> (Inr (Async (then_promise pr logic)), w'))
      \<and> handleNestedParsing schema (Many ss) input d logic w =
        (case parseAsync schema
                \<lparr>data = d, path = path input @ ss, parent = parent input\<rparr> w of
           (Inl e, w') \<Rightarrow> (Inl e, w')
         | (Inr pr, w') \<Rightarrow> (Inr (Async (then_promise pr logic)), w')))
   \<and> (\<not> ctx_async (parent input) w \<longrightarrow>
      handleNestedParsing schema (One s) input d logic w =
        (case parseSync schema
                \<lparr>data = d, path = path input @ [s], parent = parent input\<rparr> w of
           (Inl e, w') \<Rightarrow> (Inl e, w')
         | (Inr r, w') \<Rightarrow> logic r w')
      \<and> handleNestedParsing schema (Many ss) input d logic w =
        (case parseSync schema
                \<lparr>data = d, path = path input @ ss, parent = parent input\<rparr> w of
           (Inl e, w') \<Rightarrow> (Inl e, w')
         | (Inr r, w') \<Rightarrow> logic r w'))
   \<and> nested_input (One s) input d
        = \<lparr>data = d, path = path input @ [s], parent = parent input\<rparr>
   \<and> nested_input (Many ss) input d
        = \<lparr>data = d, path = path input @ ss, parent = parent input\<rparr>
   \<and> settle (then_promise (Promise_resolve (Sync r)) logic) w2 =
        (case logic r w2 of
           (Inl e, w3) \<Rightarrow> (Inl e, w3)
         | (Inr (Sync r'), w3) \<Rightarrow> (Inr r', w3)
         | (Inr (Async q), w3) \<Rightarrow> settle q w3)
   \<and> common (snd (processInputParams em (nested_input (One s) input d)))
       = common (parent input)
   \<and> common (snd (processInputParams em (nested_input (Many ss) input d)))
       = common (parent input)
   \<and> (\<exists>issue. ctx_issues (parent input)
          (addIssueToContext
             (snd (processInputParams em (nested_input (One s) input d))) i w2)
          = ctx_issues (parent input) w2 @ [issue]
        \<and> issue_path issue = path input @ [s] \<and> issue_code issue = code i)
   \<and> (\<exists>issue. ctx_issues (parent input)
          (addIssueToContext
             (snd (processInputParams em (nested_input (Many ss) input d))) i w2)
          = ctx_issues (parent input) w2 @ [issue]
        \<and> issue_path issue = path input @ ss \<and> issue_code issue = code i)"
  by (simp add: handleNestedParsing_def nested_input_def Let_def ctx_async_def then_promise_def
      processInputParams_def ctx_issues_def addIssueToContext_def makeIssue_def)

lemma world_async_flags:
  "\<not> ctx_async (parent owner_input) world0" "ctx_async (parent owner_input) world_async"
  by (simp_all add: ctx_async_def owner_input_def ctx0_def world0_def world_async_def
      empty_common_def)

theorem handleNestedParsing_delegates_witness:
  "\<not> ctx_async (parent owner_input) world0
   \<and> handleNestedParsing (JamfObjectId_parse objectid) (One (Key ''$id'')) owner_input
        (JStr ''bad'') (JamfDBRef_logic owner_input ctx0) world0 =
        (case parseSync (JamfObjectId_parse objectid)
                \<lparr>data = JStr ''bad'', path = [Key ''owner'', Key ''$id''], parent = ctx0\<rparr>
                world0 of
           (Inl e, w') \<Rightarrow> (Inl e, w')
         | (Inr r, w') \<Rightarrow> JamfDBRef_logic owner_input ctx0 r w')
   \<and> handleNestedParsing (JamfObjectId_parse objectid) (Many [Key ''$id'', Index 0]) owner_input
        (JStr ''bad'') (JamfDBRef_logic owner_input ctx0) world0 =
        (case parseSync (JamfObjectId_parse objectid)
                \<lparr>data = JStr ''bad'', path = [Key ''owner'', Key ''$id'', Index 0],
                 parent = ctx0\<rparr> world0 of
           (Inl e, w') \<Rightarrow> (Inl e, w')
         | (Inr r, w') \<Rightarrow> JamfDBRef_logic owner_input ctx0 r w')
   \<and> ctx_async (parent owner_input) world_async
   \<and> handleNestedParsing (JamfObjectId_parse objectid) (One (Key ''$id'')) owner_input
        (JStr ''bad'') (JamfDBRef_logic owner_input ctx0) world_async =
        (case parseAsync (JamfObjectId_parse objectid)
                \<lparr>data = JStr ''bad'', path = [Key ''owner'', Key ''$id''], parent = ctx0\<rparr>
                world_async of
           (Inl e, w') \<Rightarrow> (Inl e, w')
         | (Inr pr, w') \<Rightarrow>
             (Inr (Async (then_promise pr (JamfDBRef_logic owner_input ctx0))), w'))"
  using handleNestedParsing_delegates [of owner_input world0 "JamfObjectId_parse objectid"
      "Key ''$id''" "JStr ''bad''" "JamfDBRef_logic owner_input ctx0" "[Key ''$id'', Index 0]"]
    handleNestedParsing_delegates [of owner_input world_async "JamfObjectId_parse objectid"
      "Key ''$id''" "JStr ''bad''" "JamfDBRef_logic owner_input ctx0" "[Key ''$id'', Index 0]"]
    world_async_flags
  by (simp add: owner_input_def)

section \<open>Composite propagation\<close>

text \<open>
  Claim C9. Validating \<open>{ $ref: "users", $id: "bad" }\<close> with the composite reference
  validator fails, from \<open>safeParseAsync\<close> and, unless the caller passes
  \<open>async: true\<close>, from \<open>safeParse\<close>: the result is a failure whose issue sequence is
  exactly the identifier validator's \<open>custom\<close> issue, at the caller's path followed by
  \<open>$id\<close>. During the run the identifier constructor is called once, on \<open>"bad"\<close>, and
  the reference constructor is never called.
\<close>

theorem dbref_malformed_id:
  "(opt_async params \<noteq> Some True \<longrightarrow>
      outcome (safeParse (DBRef_schema (JamfDBRef_new dd)) users_bad params w)
        = Inr (False, None, [malformed_issue (opt_path params @ [Key ''$id''])])
      \<and> filter is_new_DBRef
           (new_calls w (snd (safeParse (DBRef_schema (JamfDBRef_new dd)) users_bad params w))) = []
      \<and> filter is_new_ObjectId
           (new_calls w (snd (safeParse (DBRef_schema (JamfDBRef_new dd)) users_bad params w)))
         = [Call_new_ObjectId (JStr ''bad'')])
   \<and> outcome (safeParseAsync (DBRef_schema (JamfDBRef_new dd)) users_bad params w)
        = Inr (False, None, [malformed_issue (opt_path params @ [Key ''$id''])])
   \<and> filter is_new_DBRef
        (new_calls w (snd (safeParseAsync (DBRef_schema (JamfDBRef_new dd)) users_bad params w))) = []
   \<and> filter is_new_ObjectId
        (new_calls w (snd (safeParseAsync (DBRef_schema (JamfDBRef_new dd)) users_bad params w)))
      = [Call_new_ObjectId (JStr ''bad'')]
   \<and> issue_code (malformed_issue (opt_path params @ [Key ''$id''])) = custom
   \<and> last (issue_path (malformed_issue (opt_path params @ [Key ''$id'']))) = Key ''$id''"
  using dbref_bad_sync [of params dd w] dbref_bad_async [of dd params w]
  by (simp add: malformed_issue_def)

theorem dbref_malformed_id_witness:
  "opt_async None \<noteq> Some True
   \<and> outcome (safeParse dbref_validator users_bad None world0)
       = Inr (False, None, [malformed_issue [Key ''$id'']])
   \<and> filter is_new_DBRef (new_calls world0 (snd (safeParse dbref_validator users_bad None world0)))
       = []
   \<and> outcome (safeParseAsync dbref_validator users_bad None world0)
       = Inr (False, None, [malformed_issue [Key ''$id'']])
   \<and> filter is_new_DBRef
        (new_calls world0 (snd (safeParseAsync dbref_validator users_bad None world0))) = []"
  using dbref_malformed_id [of None plain_def world0]
  by (simp add: dbref_validator_def opt_async_def opt_path_def)

end
